theory Spec2Isabelle
  imports Complex_Main "HOL-Library.Word"
begin

section \<open>Conventions\<close>

text \<open>
  The C++ type \<open>float\<close> is modelled by \<open>real\<close>: every arithmetic operation is exact, and
  there is no NaN, no infinity and no rounding. \<open>std::pow(10.f, x)\<close> is \<open>10 powr x\<close>,
  \<open>std::log10\<close> is \<open>log 10\<close>, \<open>std::exp\<close> is \<open>exp\<close>. A \<open>float*\<close> buffer is the list of the
  samples it points to; an access past its end is undefined behaviour in C++ and is the
  result \<open>None\<close> here. An \<open>int\<close> loop counter or sample count is an \<open>int\<close>. A
  \<open>std::atomic<T>\<close> field is a field of type \<open>T\<close>: the functions below are the sequential
  behaviour of one call. A data member \<open>name_\<close> of a class is the record field \<open>name\<close>
  (Isabelle reserves identifiers that end in an underscore).
\<close>

text \<open>\<open>std::clamp(v, lo, hi)\<close> and \<open>std::max(a, b)\<close> as the standard library defines them.\<close>

definition std_clamp :: "real \<Rightarrow> real \<Rightarrow> real \<Rightarrow> real" where
  "std_clamp v lo hi = (if v < lo then lo else if hi < v then hi else v)"

definition std_max :: "real \<Rightarrow> real \<Rightarrow> real" where
  "std_max a b = (if a < b then b else a)"

section \<open>ParamSmoother (hexcaster/param_smoother.h, param_smoother.cpp)\<close>

record ParamSmoother =
  current :: real
  target :: real
  coeff :: real

text \<open>The default member initialisers of the class: all three fields are \<open>0.f\<close>.\<close>

definition ParamSmoother_init :: ParamSmoother where
  "ParamSmoother_init = \<lparr>current = 0, target = 0, coeff = 0\<rparr>"

definition ParamSmoother_prepare :: "real \<Rightarrow> real \<Rightarrow> ParamSmoother \<Rightarrow> ParamSmoother" where
  "ParamSmoother_prepare sampleRate smoothingMs sm =
     (if sampleRate > 0 \<and> smoothingMs > 0 then
        (let tau = smoothingMs / 1000
         in sm\<lparr>coeff := exp (- 1 / (tau * sampleRate))\<rparr>)
      else sm\<lparr>coeff := 0\<rparr>)"

definition ParamSmoother_setTarget :: "real \<Rightarrow> ParamSmoother \<Rightarrow> ParamSmoother" where
  "ParamSmoother_setTarget tgt sm = sm\<lparr>target := tgt\<rparr>"

text \<open>\<open>next()\<close> returns the new \<open>current\<close> together with the updated smoother.\<close>

definition ParamSmoother_next :: "ParamSmoother \<Rightarrow> real \<times> ParamSmoother" where
  "ParamSmoother_next sm =
     (let sm' = sm\<lparr>current := coeff sm * current sm + (1 - coeff sm) * target sm\<rparr>
      in (current sm', sm'))"

definition ParamSmoother_snap :: "real \<Rightarrow> ParamSmoother \<Rightarrow> ParamSmoother" where
  "ParamSmoother_snap v sm = sm\<lparr>current := v, target := v\<rparr>"

text \<open>The values returned by \<open>k\<close> successive calls of \<open>next()\<close>, and the smoother after them.\<close>

fun next_outputs :: "nat \<Rightarrow> ParamSmoother \<Rightarrow> real list" where
  "next_outputs 0 sm = []"
| "next_outputs (Suc k) sm = fst (ParamSmoother_next sm) # next_outputs k (snd (ParamSmoother_next sm))"

fun next_iter :: "nat \<Rightarrow> ParamSmoother \<Rightarrow> ParamSmoother" where
  "next_iter 0 sm = sm"
| "next_iter (Suc k) sm = next_iter k (snd (ParamSmoother_next sm))"

section \<open>GainStage (hexcaster/gain_stage.h, gain_stage.cpp)\<close>

definition kMinDb :: real where "kMinDb = - 60"
definition kMaxDb :: real where "kMaxDb = 24"
definition kMinLin :: real where "kMinLin = 1 / 1000"
definition kSmoothingMs :: real where "kSmoothingMs = 10"

definition dbToLinear :: "real \<Rightarrow> real" where
  "dbToLinear db = 10 powr (db / 20)"

definition linearToDb :: "real \<Rightarrow> real" where
  "linearToDb lin = (if lin \<le> 0 then kMinDb else 20 * log 10 lin)"

record GainStage =
  targetGainLinear :: real
  smoother :: ParamSmoother

text \<open>The constructor stores \<open>1.f\<close> in the target; the smoother is default-initialised.\<close>

definition GainStage_init :: GainStage where
  "GainStage_init = \<lparr>targetGainLinear = 1, smoother = ParamSmoother_init\<rparr>"

definition GainStage_prepare :: "real \<Rightarrow> int \<Rightarrow> GainStage \<Rightarrow> GainStage" where
  "GainStage_prepare sampleRate maxBlockSize g =
     g\<lparr>smoother := ParamSmoother_snap (targetGainLinear g)
                      (ParamSmoother_prepare sampleRate kSmoothingMs (smoother g))\<rparr>"

text \<open>
  The loop \<open>for (int i = 0; i < numSamples; ++i) buffer[i] *= smoother.next();\<close>
  from counter value \<open>i\<close> on. The index is checked before \<open>next()\<close> runs, which is
  harmless: an out-of-range index ends the run as undefined behaviour either way.
\<close>

function GainStage_process_loop ::
  "int \<Rightarrow> int \<Rightarrow> real list \<Rightarrow> ParamSmoother \<Rightarrow> (real list \<times> ParamSmoother) option" where
  "GainStage_process_loop i numSamples buffer sm =
     (if i < numSamples then
        (if 0 \<le> i \<and> nat i < length buffer then
           (let (y, sm') = ParamSmoother_next sm
            in GainStage_process_loop (i + 1) numSamples
                 (buffer[nat i := buffer ! nat i * y]) sm')
         else None)
      else Some (buffer, sm))"
  by pat_completeness auto
termination
  by (relation "measure (\<lambda>(i, numSamples, buffer, sm). nat (numSamples - i))") auto

declare GainStage_process_loop.simps [simp del]

definition GainStage_process ::
  "real list \<Rightarrow> int \<Rightarrow> GainStage \<Rightarrow> (real list \<times> GainStage) option" where
  "GainStage_process buffer numSamples g =
     (let tgt = targetGainLinear g;
          sm = ParamSmoother_setTarget tgt (smoother g)
      in case GainStage_process_loop 0 numSamples buffer sm of
           None \<Rightarrow> None
         | Some (buffer', sm') \<Rightarrow> Some (buffer', g\<lparr>smoother := sm'\<rparr>))"

definition GainStage_reset :: "GainStage \<Rightarrow> GainStage" where
  "GainStage_reset g = g\<lparr>smoother := ParamSmoother_snap (targetGainLinear g) (smoother g)\<rparr>"

definition GainStage_setGainDb :: "real \<Rightarrow> GainStage \<Rightarrow> GainStage" where
  "GainStage_setGainDb db g =
     (let clamped = std_clamp db kMinDb kMaxDb;
          lin = std_max (dbToLinear clamped) kMinLin
      in g\<lparr>targetGainLinear := lin\<rparr>)"

definition GainStage_setGainLinear :: "real \<Rightarrow> GainStage \<Rightarrow> GainStage" where
  "GainStage_setGainLinear lin g =
     (let clamped = std_max lin kMinLin in g\<lparr>targetGainLinear := clamped\<rparr>)"

definition GainStage_getGainDb :: "GainStage \<Rightarrow> real" where
  "GainStage_getGainDb g = linearToDb (targetGainLinear g)"

definition GainStage_getGainLinear :: "GainStage \<Rightarrow> real" where
  "GainStage_getGainLinear g = targetGainLinear g"

text \<open>
  The convergence scenario: a freshly constructed GainStage is prepared at \<open>sampleRate\<close>,
  \<open>setGainDb(g)\<close> is called, and one block of \<open>n\<close> samples of value 1 is processed.
  \<open>unit_response_sample\<close> is output sample \<open>k\<close> of that block.
\<close>

definition unit_response :: "real \<Rightarrow> real \<Rightarrow> nat \<Rightarrow> (real list \<times> GainStage) option" where
  "unit_response sampleRate g n =
     GainStage_process (replicate n 1) (int n)
       (GainStage_setGainDb g (GainStage_prepare sampleRate (int n) GainStage_init))"

definition unit_response_sample :: "real \<Rightarrow> real \<Rightarrow> nat \<Rightarrow> nat \<Rightarrow> real option" where
  "unit_response_sample sampleRate g n k =
     (if k < n then map_option (\<lambda>r. fst r ! k) (unit_response sampleRate g n) else None)"

text \<open>
  A host feeds the stage block after block, each call with \<open>numSamples\<close> the length of
  the block, as the plugin's \<open>run\<close> does through \<open>Pipeline::process\<close>. The result is the
  output stream (the processed blocks one after the other) and the stage afterwards.
  \<open>unit_blocks ns\<close> is a constant unit-valued input cut into blocks of the sizes \<open>ns\<close>, and
  \<open>stream_sample r k\<close> is sample \<open>k\<close> of an output stream.
\<close>

fun GainStage_process_blocks ::
  "real list list \<Rightarrow> GainStage \<Rightarrow> (real list \<times> GainStage) option" where
  "GainStage_process_blocks [] g = Some ([], g)"
| "GainStage_process_blocks (b # bs) g =
     (case GainStage_process b (int (length b)) g of
        None \<Rightarrow> None
      | Some (b', g') \<Rightarrow>
          (case GainStage_process_blocks bs g' of
             None \<Rightarrow> None
           | Some (out, g'') \<Rightarrow> Some (b' @ out, g'')))"

definition unit_blocks :: "nat list \<Rightarrow> real list list" where
  "unit_blocks ns = map (\<lambda>n. replicate n 1) ns"

definition stream_sample :: "(real list \<times> GainStage) option \<Rightarrow> nat \<Rightarrow> real option" where
  "stream_sample r k =
     (case r of
        None \<Rightarrow> None
      | Some (out, g) \<Rightarrow> if k < length out then Some (out ! k) else None)"

section \<open>ParamId and ParamRegistry (hexcaster/param_id.h, hexcaster/param_registry.h, param_registry.cpp)\<close>

text \<open>
  \<open>enum class ParamId : uint32_t\<close>: a value of the enumeration type is any 32-bit unsigned
  integer, the enumerators are the named ones. \<open>kCount\<close> follows \<open>ReverbWet_Norm = 42\<close>.
\<close>

type_synonym ParamId = "32 word"

definition BloomBasePre_dB :: ParamId where "BloomBasePre_dB = 0"
definition BloomBasePost_dB :: ParamId where "BloomBasePost_dB = 1"
definition BloomPreDepth :: ParamId where "BloomPreDepth = 2"
definition BloomPostDepth :: ParamId where "BloomPostDepth = 3"
definition EnvAttackMs :: ParamId where "EnvAttackMs = 4"
definition EnvReleaseMs :: ParamId where "EnvReleaseMs = 5"
definition EqBand1Freq :: ParamId where "EqBand1Freq = 10"
definition EqBand1GainDb :: ParamId where "EqBand1GainDb = 11"
definition EqBand1Q :: ParamId where "EqBand1Q = 12"
definition EqBand2Freq :: ParamId where "EqBand2Freq = 13"
definition EqBand2GainDb :: ParamId where "EqBand2GainDb = 14"
definition EqBand2Q :: ParamId where "EqBand2Q = 15"
definition EqBand3Freq :: ParamId where "EqBand3Freq = 16"
definition EqBand3GainDb :: ParamId where "EqBand3GainDb = 17"
definition EqBand3Q :: ParamId where "EqBand3Q = 18"
definition MasterGain_dB :: ParamId where "MasterGain_dB = 30"
definition ReverbRoomSize :: ParamId where "ReverbRoomSize = 40"
definition ReverbDamping :: ParamId where "ReverbDamping = 41"
definition ReverbWet_Norm :: ParamId where "ReverbWet_Norm = 42"
definition kCount :: ParamId where "kCount = 43"

text \<open>The enumerators, in declaration order (\<open>kCount\<close> is the sentinel, not a parameter).\<close>

definition registered_ids :: "ParamId list" where
  "registered_ids =
     [BloomBasePre_dB, BloomBasePost_dB, BloomPreDepth, BloomPostDepth, EnvAttackMs, EnvReleaseMs,
      EqBand1Freq, EqBand1GainDb, EqBand1Q, EqBand2Freq, EqBand2GainDb, EqBand2Q,
      EqBand3Freq, EqBand3GainDb, EqBand3Q, MasterGain_dB,
      ReverbRoomSize, ReverbDamping, ReverbWet_Norm]"

text \<open>The integers strictly between 0 and \<open>kCount\<close> that no enumerator has: 6-9, 19-29, 31-39.\<close>

definition gap_ids :: "ParamId list" where
  "gap_ids = [6, 7, 8, 9, 19, 20, 21, 22, 23, 24, 25, 26, 27, 28, 29,
              31, 32, 33, 34, 35, 36, 37, 38, 39]"

text \<open>\<open>static_cast<int>(id)\<close>: the 32-bit pattern read as a signed integer.\<close>

definition kNumParams :: int where
  "kNumParams = sint kCount"

record ParamInfo =
  defaultValue :: real
  minValue :: real
  maxValue :: real

text \<open>The lambda \<open>idx\<close> inside the initialiser of \<open>kParamInfo\<close>, used as an array index.\<close>

definition idx :: "ParamId \<Rightarrow> nat" where
  "idx pid = nat (sint pid)"

text \<open>
  The initialiser of the static table: every entry is first set to \<open>{0, -1e9, 1e9}\<close>,
  then the entries of the enumerators are assigned in the order of the source.
\<close>

definition kParamInfo :: "ParamInfo list" where
  "kParamInfo =
     (let info = replicate (nat kNumParams) \<lparr>defaultValue = 0, minValue = - 1000000000, maxValue = 1000000000\<rparr>;
          info = info[idx BloomBasePre_dB := \<lparr>defaultValue = 0, minValue = - 24, maxValue = 24\<rparr>];
          info = info[idx BloomBasePost_dB := \<lparr>defaultValue = 0, minValue = - 24, maxValue = 24\<rparr>];
          info = info[idx BloomPreDepth := \<lparr>defaultValue = 6, minValue = 0, maxValue = 24\<rparr>];
          info = info[idx BloomPostDepth := \<lparr>defaultValue = 3, minValue = 0, maxValue = 24\<rparr>];
          info = info[idx EnvAttackMs := \<lparr>defaultValue = 5, minValue = 1 / 10, maxValue = 500\<rparr>];
          info = info[idx EnvReleaseMs := \<lparr>defaultValue = 100, minValue = 1, maxValue = 5000\<rparr>];
          info = info[idx EqBand1Freq := \<lparr>defaultValue = 100, minValue = 20, maxValue = 20000\<rparr>];
          info = info[idx EqBand1GainDb := \<lparr>defaultValue = 0, minValue = - 24, maxValue = 24\<rparr>];
          info = info[idx EqBand1Q := \<lparr>defaultValue = 1, minValue = 1 / 10, maxValue = 10\<rparr>];
          info = info[idx EqBand2Freq := \<lparr>defaultValue = 1000, minValue = 20, maxValue = 20000\<rparr>];
          info = info[idx EqBand2GainDb := \<lparr>defaultValue = 0, minValue = - 24, maxValue = 24\<rparr>];
          info = info[idx EqBand2Q := \<lparr>defaultValue = 1, minValue = 1 / 10, maxValue = 10\<rparr>];
          info = info[idx EqBand3Freq := \<lparr>defaultValue = 8000, minValue = 20, maxValue = 20000\<rparr>];
          info = info[idx EqBand3GainDb := \<lparr>defaultValue = 0, minValue = - 24, maxValue = 24\<rparr>];
          info = info[idx EqBand3Q := \<lparr>defaultValue = 1, minValue = 1 / 10, maxValue = 10\<rparr>];
          info = info[idx MasterGain_dB := \<lparr>defaultValue = 0, minValue = - 60, maxValue = 24\<rparr>];
          info = info[idx ReverbRoomSize := \<lparr>defaultValue = 1 / 2, minValue = 0, maxValue = 1\<rparr>];
          info = info[idx ReverbDamping := \<lparr>defaultValue = 1 / 2, minValue = 0, maxValue = 1\<rparr>];
          info = info[idx ReverbWet_Norm := \<lparr>defaultValue = 0, minValue = 0, maxValue = 1\<rparr>]
      in info)"

text \<open>
  The registry holds the array \<open>values_\<close> of \<open>kNumParams\<close> atomics (field \<open>values_arr\<close>;
  \<open>values\<close> is a keyword of Isabelle). A registry is well formed when the list has the
  array's length, which the C++ type fixes.
\<close>

record ParamRegistry =
  values_arr :: "real list"

definition ParamRegistry_wf :: "ParamRegistry \<Rightarrow> bool" where
  "ParamRegistry_wf r = (length (values_arr r) = nat kNumParams)"

definition ParamRegistry_set :: "ParamId \<Rightarrow> real \<Rightarrow> ParamRegistry \<Rightarrow> ParamRegistry" where
  "ParamRegistry_set pid v r =
     (let i = sint pid
      in if i < 0 \<or> i \<ge> kNumParams then r
         else (let info = kParamInfo ! nat i;
                   clamped = std_clamp v (minValue info) (maxValue info)
               in r\<lparr>values_arr := (values_arr r)[nat i := clamped]\<rparr>))"

definition ParamRegistry_get :: "ParamId \<Rightarrow> ParamRegistry \<Rightarrow> real" where
  "ParamRegistry_get pid r =
     (let i = sint pid
      in if i < 0 \<or> i \<ge> kNumParams then 0 else values_arr r ! nat i)"

text \<open>The loop of \<open>resetToDefaults\<close> from counter value \<open>i\<close> on.\<close>

function resetToDefaults_loop :: "int \<Rightarrow> real list \<Rightarrow> real list" where
  "resetToDefaults_loop i vs =
     (if i < kNumParams
      then resetToDefaults_loop (i + 1) (vs[nat i := defaultValue (kParamInfo ! nat i)])
      else vs)"
  by pat_completeness auto
termination
  by (relation "measure (\<lambda>(i, vs). nat (kNumParams - i))") auto

declare resetToDefaults_loop.simps [simp del]

definition ParamRegistry_resetToDefaults :: "ParamRegistry \<Rightarrow> ParamRegistry" where
  "ParamRegistry_resetToDefaults r = r\<lparr>values_arr := resetToDefaults_loop 0 (values_arr r)\<rparr>"

text \<open>
  The constructor calls \<open>resetToDefaults()\<close> on the array, whose elements are
  value-initialised atomics (their content is overwritten in any case).
\<close>

definition ParamRegistry_new :: ParamRegistry where
  "ParamRegistry_new =
     ParamRegistry_resetToDefaults \<lparr>values_arr = replicate (nat kNumParams) 0\<rparr>"

section \<open>Pipeline (hexcaster/processor_stage.h, hexcaster/pipeline.h, pipeline.cpp)\<close>

text \<open>
  \<open>ProcessorStage\<close> and \<open>PipelineController\<close> are abstract classes; the pipeline holds
  pointers to objects it does not own, and a controller may refer to a stage that is also
  in the chain. An object is therefore modelled by its virtual functions, each a
  transformer of one world state \<open>'w\<close> that holds everything a call can read or write
  (the sample memory and the state of every stage and controller). \<open>'b\<close> is the type of
  the buffer pointer. A null pointer is \<open>None\<close>.
\<close>

record ('b, 'w) ProcessorStage =
  stage_prepare :: "real \<Rightarrow> int \<Rightarrow> 'w \<Rightarrow> 'w"
  stage_process :: "'b \<Rightarrow> int \<Rightarrow> 'w \<Rightarrow> 'w"
  stage_reset :: "'w \<Rightarrow> 'w"

record ('b, 'w) PipelineController =
  preProcess :: "'b \<Rightarrow> int \<Rightarrow> 'w \<Rightarrow> 'w"
  betweenStages :: "int \<Rightarrow> 'b \<Rightarrow> int \<Rightarrow> 'w \<Rightarrow> 'w"

definition kMaxStages :: int where "kMaxStages = 16"
definition kMaxControllers :: int where "kMaxControllers = 4"

record ('b, 'w) Pipeline =
  stages :: "('b, 'w) ProcessorStage option list"
  controllers :: "('b, 'w) PipelineController option list"
  numStages :: int
  numControllers :: int
  pipeline_sampleRate :: real
  pipeline_maxBlockSize :: int

text \<open>The default member initialisers: both arrays hold null pointers, the counts are 0.\<close>

definition Pipeline_new :: "('b, 'w) Pipeline" where
  "Pipeline_new =
     \<lparr>stages = replicate (nat kMaxStages) None,
      controllers = replicate (nat kMaxControllers) None,
      numStages = 0, numControllers = 0,
      pipeline_sampleRate = 0, pipeline_maxBlockSize = 0\<rparr>"

text \<open>A failed \<open>assert\<close> aborts the program: the result is \<open>None\<close>.\<close>

definition Pipeline_addStage ::
  "('b, 'w) ProcessorStage option \<Rightarrow> ('b, 'w) Pipeline \<Rightarrow> ('b, 'w) Pipeline option" where
  "Pipeline_addStage stage p =
     (if \<not> numStages p < kMaxStages then None
      else if stage = None then None
      else Some (p\<lparr>stages := (stages p)[nat (numStages p) := stage],
                   numStages := numStages p + 1\<rparr>))"

definition Pipeline_addController ::
  "('b, 'w) PipelineController option \<Rightarrow> ('b, 'w) Pipeline \<Rightarrow> ('b, 'w) Pipeline option" where
  "Pipeline_addController controller p =
     (if \<not> numControllers p < kMaxControllers then None
      else if controller = None then None
      else Some (p\<lparr>controllers := (controllers p)[nat (numControllers p) := controller],
                   numControllers := numControllers p + 1\<rparr>))"

text \<open>
  The state every pipeline built by \<open>addStage\<close> and \<open>addController\<close> from a new one is
  in: the counts are within the capacities and the registered slots are not null.
\<close>

definition Pipeline_wf :: "('b, 'w) Pipeline \<Rightarrow> bool" where
  "Pipeline_wf p =
     (0 \<le> numStages p \<and> numStages p \<le> kMaxStages
      \<and> 0 \<le> numControllers p \<and> numControllers p \<le> kMaxControllers
      \<and> length (stages p) = nat kMaxStages
      \<and> length (controllers p) = nat kMaxControllers
      \<and> list_all (\<lambda>x. x \<noteq> None) (take (nat (numStages p)) (stages p))
      \<and> list_all (\<lambda>x. x \<noteq> None) (take (nat (numControllers p)) (controllers p)))"

text \<open>
  The three loops of \<open>Pipeline::process\<close>, each from a counter value on. Reading an array
  slot out of range or calling through a null pointer is undefined behaviour (\<open>None\<close>).
\<close>

function preProcess_loop ::
  "int \<Rightarrow> ('b, 'w) Pipeline \<Rightarrow> 'b \<Rightarrow> int \<Rightarrow> 'w \<Rightarrow> 'w option" where
  "preProcess_loop c p buffer numSamples w =
     (if c < numControllers p then
        (if 0 \<le> c \<and> nat c < length (controllers p) then
           (case controllers p ! nat c of
              None \<Rightarrow> None
            | Some ctl \<Rightarrow>
                preProcess_loop (c + 1) p buffer numSamples (preProcess ctl buffer numSamples w))
         else None)
      else Some w)"
  by pat_completeness auto
termination
  by (relation "measure (\<lambda>(c, p, buffer, numSamples, w). nat (numControllers p - c))") auto

declare preProcess_loop.simps [simp del]

function betweenStages_loop ::
  "int \<Rightarrow> int \<Rightarrow> ('b, 'w) Pipeline \<Rightarrow> 'b \<Rightarrow> int \<Rightarrow> 'w \<Rightarrow> 'w option" where
  "betweenStages_loop c s p buffer numSamples w =
     (if c < numControllers p then
        (if 0 \<le> c \<and> nat c < length (controllers p) then
           (case controllers p ! nat c of
              None \<Rightarrow> None
            | Some ctl \<Rightarrow>
                betweenStages_loop (c + 1) s p buffer numSamples
                  (betweenStages ctl s buffer numSamples w))
         else None)
      else Some w)"
  by pat_completeness auto
termination
  by (relation "measure (\<lambda>(c, s, p, buffer, numSamples, w). nat (numControllers p - c))") auto

declare betweenStages_loop.simps [simp del]

function stages_loop ::
  "int \<Rightarrow> ('b, 'w) Pipeline \<Rightarrow> 'b \<Rightarrow> int \<Rightarrow> 'w \<Rightarrow> 'w option" where
  "stages_loop s p buffer numSamples w =
     (if s < numStages p then
        (if 0 \<le> s \<and> nat s < length (stages p) then
           (case stages p ! nat s of
              None \<Rightarrow> None
            | Some stage \<Rightarrow>
                (case betweenStages_loop 0 s p buffer numSamples
                        (stage_process stage buffer numSamples w) of
                   None \<Rightarrow> None
                 | Some w' \<Rightarrow> stages_loop (s + 1) p buffer numSamples w'))
         else None)
      else Some w)"
  by pat_completeness auto
termination
  by (relation "measure (\<lambda>(s, p, buffer, numSamples, w). nat (numStages p - s))") auto

declare stages_loop.simps [simp del]

definition Pipeline_process ::
  "('b, 'w) Pipeline \<Rightarrow> 'b \<Rightarrow> int \<Rightarrow> 'w \<Rightarrow> 'w option" where
  "Pipeline_process p buffer numSamples w =
     (case preProcess_loop 0 p buffer numSamples w of
        None \<Rightarrow> None
      | Some w' \<Rightarrow> stages_loop 0 p buffer numSamples w')"

text \<open>
  The calls one block makes, as the specification lists them: the \<open>preProcess\<close> of every
  controller in registration order, then for each stage in registration order its
  \<open>process\<close> followed by the \<open>betweenStages\<close> of every controller in registration order.
  \<open>BetweenStages c s\<close> is the call of controller \<open>c\<close> with stage index \<open>s\<close>.
\<close>

datatype call = PreProcess nat | StageProcess nat | BetweenStages nat nat

definition call_schedule :: "nat \<Rightarrow> nat \<Rightarrow> call list" where
  "call_schedule S C =
     map PreProcess [0..<C]
     @ concat (map (\<lambda>s. StageProcess s # map (\<lambda>c. BetweenStages c s) [0..<C]) [0..<S])"

text \<open>The effect of one call of the schedule on the world, through the pipeline's pointers.\<close>

fun run_call :: "('b, 'w) Pipeline \<Rightarrow> 'b \<Rightarrow> int \<Rightarrow> call \<Rightarrow> 'w \<Rightarrow> 'w" where
  "run_call p buffer numSamples (PreProcess c) w =
     preProcess (the (controllers p ! c)) buffer numSamples w"
| "run_call p buffer numSamples (StageProcess s) w =
     stage_process (the (stages p ! s)) buffer numSamples w"
| "run_call p buffer numSamples (BetweenStages c s) w =
     betweenStages (the (controllers p ! c)) (int s) buffer numSamples w"

text \<open>
  Stages and controllers that only record their own call in a trace (the world), and a
  pipeline of two such stages and one such controller built through the public interface.
\<close>

definition logging_stage :: "nat \<Rightarrow> (unit, call list) ProcessorStage" where
  "logging_stage s =
     \<lparr>stage_prepare = (\<lambda>sr mbs w. w),
      stage_process = (\<lambda>buffer numSamples w. w @ [StageProcess s]),
      stage_reset = (\<lambda>w. w)\<rparr>"

definition logging_controller :: "nat \<Rightarrow> (unit, call list) PipelineController" where
  "logging_controller c =
     \<lparr>preProcess = (\<lambda>buffer numSamples w. w @ [PreProcess c]),
      betweenStages = (\<lambda>s buffer numSamples w. w @ [BetweenStages c (nat s)])\<rparr>"

definition logging_pipeline :: "(unit, call list) Pipeline option" where
  "logging_pipeline =
     Option.bind (Pipeline_addStage (Some (logging_stage 0)) Pipeline_new)
       (\<lambda>p. Option.bind (Pipeline_addStage (Some (logging_stage 1)) p)
         (\<lambda>p. Pipeline_addController (Some (logging_controller 0)) p))"

text \<open>Whether a call is a \<open>betweenStages\<close> call of controller \<open>c\<close>.\<close>

fun is_betweenStages_of :: "nat \<Rightarrow> call \<Rightarrow> bool" where
  "is_betweenStages_of c (BetweenStages c' s) = (c' = c)"
| "is_betweenStages_of c (PreProcess c') = False"
| "is_betweenStages_of c (StageProcess s) = False"

section \<open>NamStage (hexcaster/nam_stage.h, nam_stage.cpp)\<close>

text \<open>
  \<open>NeuralAudio::NeuralModel\<close> belongs to an external library. Its member functions that
  \<open>NamStage\<close> calls are taken as a parameter: a record of functions over the type \<open>'m\<close> of
  model objects. \<open>CreateFromFile\<close> may throw, return a null pointer or return a model.
  \<open>Process\<close> maps the block of input samples it reads and the model to the block it writes
  and the model afterwards (a model carries internal state).
\<close>

datatype 'm create_result = Throws | Null | Model 'm

record 'm NeuralModel_api =
  CreateFromFile :: "string \<Rightarrow> 'm create_result"
  SetMaxAudioBufferSize :: "int \<Rightarrow> 'm \<Rightarrow> 'm"
  Process :: "real list \<Rightarrow> 'm \<Rightarrow> real list \<times> 'm"
  GetRecommendedInputDBAdjustment :: "'m \<Rightarrow> real"
  GetRecommendedOutputDBAdjustment :: "'m \<Rightarrow> real"

text \<open>The library's contract for \<open>Process\<close>: it writes as many samples as it reads.\<close>

definition Process_ok :: "'m NeuralModel_api \<Rightarrow> bool" where
  "Process_ok api = (\<forall>xs m. length (fst (Process api xs m)) = length xs)"

text \<open>A \<open>std::unique_ptr\<close> is an option: \<open>None\<close> is the empty pointer.\<close>

record 'm NamStage =
  model :: "'m option"
  currentModelPath :: string
  pendingModel :: "'m option"
  pendingModelPath :: string
  modelPending :: bool
  outputBuffer :: "real list"
  nam_maxBlockSize :: int
  nam_sampleRate :: real
  inputGainLinear :: real
  outputGainLinear :: real

definition NamStage_new :: "'m NamStage" where
  "NamStage_new =
     \<lparr>model = None, currentModelPath = [], pendingModel = None, pendingModelPath = [],
      modelPending = False, outputBuffer = [], nam_maxBlockSize = 0, nam_sampleRate = 0,
      inputGainLinear = 1, outputGainLinear = 1\<rparr>"

text \<open>
  \<open>prepare\<close>: the static \<open>SetDefaultMaxAudioBufferSize\<close> acts on the library only and is left
  out; \<open>assign\<close> makes the output buffer \<open>maxBlockSize\<close> zeros.
\<close>

definition NamStage_prepare :: "'m NeuralModel_api \<Rightarrow> real \<Rightarrow> int \<Rightarrow> 'm NamStage \<Rightarrow> 'm NamStage" where
  "NamStage_prepare api sampleRate maxBlockSize st =
     (let st = st\<lparr>nam_sampleRate := sampleRate, nam_maxBlockSize := maxBlockSize,
                    outputBuffer := replicate (nat maxBlockSize) 0\<rparr>
      in case model st of
           None \<Rightarrow> st
         | Some m \<Rightarrow> st\<lparr>model := Some (SetMaxAudioBufferSize api maxBlockSize m)\<rparr>)"

definition NamStage_updateCalibration :: "'m NeuralModel_api \<Rightarrow> 'm NamStage \<Rightarrow> 'm NamStage" where
  "NamStage_updateCalibration api st =
     (case model st of
        None \<Rightarrow> st\<lparr>inputGainLinear := 1, outputGainLinear := 1\<rparr>
      | Some m \<Rightarrow>
          (let inDb = GetRecommendedInputDBAdjustment api m;
               outDb = GetRecommendedOutputDBAdjustment api m
           in st\<lparr>inputGainLinear := 10 powr (inDb / 20),
                  outputGainLinear := 10 powr (outDb / 20)\<rparr>))"

text \<open>
  \<open>applyPendingModel\<close>: a moved-from \<open>unique_ptr\<close> is empty; the moved-from path string is
  taken to be empty too (the standard leaves its content unspecified).
\<close>

definition NamStage_applyPendingModel :: "'m NeuralModel_api \<Rightarrow> 'm NamStage \<Rightarrow> 'm NamStage" where
  "NamStage_applyPendingModel api st =
     NamStage_updateCalibration api
       (st\<lparr>model := pendingModel st, pendingModel := None,
            currentModelPath := pendingModelPath st, pendingModelPath := [],
            modelPending := False\<rparr>)"

text \<open>The loop \<open>buffer[i] *= inputGainLinear_\<close> from counter value \<open>i\<close> on.\<close>

function input_gain_loop :: "int \<Rightarrow> int \<Rightarrow> real list \<Rightarrow> real \<Rightarrow> real list option" where
  "input_gain_loop i numSamples buffer g =
     (if i < numSamples then
        (if 0 \<le> i \<and> nat i < length buffer
         then input_gain_loop (i + 1) numSamples (buffer[nat i := buffer ! nat i * g]) g
         else None)
      else Some buffer)"
  by pat_completeness auto
termination
  by (relation "measure (\<lambda>(i, numSamples, buffer, g). nat (numSamples - i))") auto

declare input_gain_loop.simps [simp del]

text \<open>The loop \<open>buffer[i] = outputBuffer_[i] * outputGainLinear_\<close> from counter value \<open>i\<close> on.\<close>

function output_gain_loop ::
  "int \<Rightarrow> int \<Rightarrow> real list \<Rightarrow> real list \<Rightarrow> real \<Rightarrow> real list option" where
  "output_gain_loop i numSamples buffer outBuf g =
     (if i < numSamples then
        (if 0 \<le> i \<and> nat i < length buffer \<and> nat i < length outBuf
         then output_gain_loop (i + 1) numSamples (buffer[nat i := outBuf ! nat i * g]) outBuf g
         else None)
      else Some buffer)"
  by pat_completeness auto
termination
  by (relation "measure (\<lambda>(i, numSamples, buffer, outBuf, g). nat (numSamples - i))") auto

declare output_gain_loop.simps [simp del]

text \<open>
  \<open>std::memcpy(buffer, outputBuffer_.data(), numSamples * sizeof(float))\<close>: the count is
  converted to \<open>size_t\<close>, so a negative count or one past either array is undefined.
\<close>

definition memcpy_samples :: "real list \<Rightarrow> real list \<Rightarrow> int \<Rightarrow> real list option" where
  "memcpy_samples buffer outBuf numSamples =
     (if 0 \<le> numSamples \<and> nat numSamples \<le> length buffer \<and> nat numSamples \<le> length outBuf
      then Some (take (nat numSamples) outBuf @ drop (nat numSamples) buffer)
      else None)"

text \<open>
  \<open>model_->Process(buffer, outputBuffer_.data(), numSamples)\<close> reads \<open>numSamples\<close> samples of
  the buffer and writes the block the model returns over the start of the output
  buffer; a count that is negative or past either array is undefined.
\<close>

definition run_model ::
  "'m NeuralModel_api \<Rightarrow> 'm \<Rightarrow> real list \<Rightarrow> real list \<Rightarrow> int \<Rightarrow> (real list \<times> 'm) option" where
  "run_model api m buffer outBuf numSamples =
     (if 0 \<le> numSamples \<and> nat numSamples \<le> length buffer \<and> nat numSamples \<le> length outBuf
      then (let (out, m') = Process api (take (nat numSamples) buffer) m
            in Some (out @ drop (length out) outBuf, m'))
      else None)"

definition NamStage_process ::
  "'m NeuralModel_api \<Rightarrow> real list \<Rightarrow> int \<Rightarrow> 'm NamStage \<Rightarrow> (real list \<times> 'm NamStage) option" where
  "NamStage_process api buffer numSamples st0 =
     (let st = (if modelPending st0 then NamStage_applyPendingModel api st0 else st0)
      in case model st of
           None \<Rightarrow> Some (buffer, st)
         | Some m \<Rightarrow>
             (case (if inputGainLinear st \<noteq> 1
                    then input_gain_loop 0 numSamples buffer (inputGainLinear st)
                    else Some buffer) of
                None \<Rightarrow> None
              | Some buffer1 \<Rightarrow>
                  (case run_model api m buffer1 (outputBuffer st) numSamples of
                     None \<Rightarrow> None
                   | Some (outBuf, m') \<Rightarrow>
                       (case (if outputGainLinear st \<noteq> 1
                              then output_gain_loop 0 numSamples buffer1 outBuf (outputGainLinear st)
                              else memcpy_samples buffer1 outBuf numSamples) of
                          None \<Rightarrow> None
                        | Some buffer2 \<Rightarrow>
                            Some (buffer2, st\<lparr>model := Some m', outputBuffer := outBuf\<rparr>)))))"

definition NamStage_reset :: "'m NamStage \<Rightarrow> 'm NamStage" where
  "NamStage_reset st = st"

definition NamStage_loadModel ::
  "'m NeuralModel_api \<Rightarrow> string \<Rightarrow> 'm NamStage \<Rightarrow> bool \<times> 'm NamStage" where
  "NamStage_loadModel api path st =
     (case CreateFromFile api path of
        Throws \<Rightarrow> (False, st)
      | Null \<Rightarrow> (False, st)
      | Model raw \<Rightarrow>
          (let newModel = (if nam_maxBlockSize st > 0
                           then SetMaxAudioBufferSize api (nam_maxBlockSize st) raw else raw)
           in (True, st\<lparr>pendingModel := Some newModel, pendingModelPath := path,
                          modelPending := True\<rparr>)))"

definition NamStage_unloadModel :: "'m NamStage \<Rightarrow> 'm NamStage" where
  "NamStage_unloadModel st = st\<lparr>pendingModel := None, pendingModelPath := [], modelPending := True\<rparr>"

definition NamStage_hasModel :: "'m NamStage \<Rightarrow> bool" where
  "NamStage_hasModel st = (model st \<noteq> None)"

definition NamStage_modelPath :: "'m NamStage \<Rightarrow> string" where
  "NamStage_modelPath st = currentModelPath st"

text \<open>
  A stand-in for the library, used to run the stage on concrete inputs: a model is a
  factor that \<open>Process\<close> multiplies every sample by; a file named \<open>bad\<close> makes
  \<open>CreateFromFile\<close> throw, the empty name gives a null pointer, any other name the model 2;
  the recommended adjustments are 0 dB on input and 20 dB on output.
\<close>

definition example_api :: "real NeuralModel_api" where
  "example_api =
     \<lparr>CreateFromFile = (\<lambda>path. if path = ''bad'' then Throws
                               else if path = [] then Null else Model 2),
      SetMaxAudioBufferSize = (\<lambda>n m. m),
      Process = (\<lambda>xs m. (map (\<lambda>x. m * x) xs, m)),
      GetRecommendedInputDBAdjustment = (\<lambda>m. 0),
      GetRecommendedOutputDBAdjustment = (\<lambda>m. 20)\<rparr>"

text \<open>
  A stage prepared for blocks of 4 samples on which \<open>loadModel\<close> has succeeded and no
  block has been processed yet: the model is still pending.
\<close>

definition example_stage :: "real NamStage" where
  "example_stage =
     snd (NamStage_loadModel example_api ''amp.nam''
            (NamStage_prepare example_api 48000 4 NamStage_new))"

section \<open>Properties of ParamSmoother and of the standard functions\<close>

lemma std_clamp_max_min: "lo \<le> hi \<Longrightarrow> std_clamp v lo hi = max lo (min hi v)"
  by (simp add: std_clamp_def max_def min_def)

lemma std_max_max: "std_max a b = max a b"
  by (simp add: std_max_def max_def)

lemma next_fields:
  "coeff (snd (ParamSmoother_next sm)) = coeff sm"
  "target (snd (ParamSmoother_next sm)) = target sm"
  "current (snd (ParamSmoother_next sm)) = coeff sm * current sm + (1 - coeff sm) * target sm"
  "fst (ParamSmoother_next sm) = coeff sm * current sm + (1 - coeff sm) * target sm"
  by (simp_all add: ParamSmoother_next_def Let_def)

lemma next_iter_fields:
  "coeff (next_iter k sm) = coeff sm \<and> target (next_iter k sm) = target sm"
  by (induction k arbitrary: sm) (simp_all add: next_fields)

lemma length_next_outputs: "length (next_outputs k sm) = k"
  by (induction k arbitrary: sm) simp_all

section \<open>Properties of the GainStage loop\<close>

lemma GainStage_process_loop_spec:
  "0 \<le> i \<Longrightarrow> i \<le> n \<Longrightarrow> n \<le> int (length buf) \<Longrightarrow>
   \<exists>buf'. GainStage_process_loop i n buf sm = Some (buf', next_iter (nat (n - i)) sm)
     \<and> length buf' = length buf
     \<and> (\<forall>k<length buf. buf' ! k =
           (if nat i \<le> k \<and> k < nat n then buf ! k * next_outputs (nat (n - i)) sm ! (k - nat i)
            else buf ! k))"
proof (induction i n buf sm rule: GainStage_process_loop.induct)
  case (1 i n buf sm)
  show ?case
  proof (cases "i < n")
    case False
    with 1 have "i = n" by simp
    then show ?thesis by (subst GainStage_process_loop.simps) simp
  next
    case True
    define y where "y = fst (ParamSmoother_next sm)"
    define sm' where "sm' = snd (ParamSmoother_next sm)"
    define b1 where "b1 = buf[nat i := buf ! nat i * y]"
    have pr: "ParamSmoother_next sm = (y, sm')" by (simp add: y_def sm'_def)
    have inb: "0 \<le> i \<and> nat i < length buf" using 1(2-4) True by linarith
    have step: "GainStage_process_loop i n buf sm = GainStage_process_loop (i + 1) n b1 sm'"
      by (subst GainStage_process_loop.simps) (simp add: True inb pr b1_def)
    have lb1: "length b1 = length buf" by (simp add: b1_def)
    from "1.IH"[OF True inb pr[symmetric] refl] 
    obtain buf' where ih: "GainStage_process_loop (i + 1) n b1 sm' = Some (buf', next_iter (nat (n - (i + 1))) sm')"
       "length buf' = length b1"
       "\<forall>k<length b1. buf' ! k =
           (if nat (i + 1) \<le> k \<and> k < nat n then b1 ! k * next_outputs (nat (n - (i + 1))) sm' ! (k - nat (i + 1))
            else b1 ! k)"
      using True inb 1(4) lb1 unfolding b1_def by auto
    have suc: "nat (n - i) = Suc (nat (n - (i + 1)))" using True by linarith
    have it: "next_iter (nat (n - i)) sm = next_iter (nat (n - (i + 1))) sm'"
      by (simp add: suc sm'_def)
    have outs: "next_outputs (nat (n - i)) sm = y # next_outputs (nat (n - (i + 1))) sm'"
      by (simp add: suc sm'_def y_def)
    have "\<forall>k<length buf. buf' ! k =
           (if nat i \<le> k \<and> k < nat n then buf ! k * next_outputs (nat (n - i)) sm ! (k - nat i)
            else buf ! k)"
    proof (intro allI impI)
      fix k assume k: "k < length buf"
      consider "k < nat i" | "k = nat i" | "nat i < k" by linarith
      then show "buf' ! k =
           (if nat i \<le> k \<and> k < nat n then buf ! k * next_outputs (nat (n - i)) sm ! (k - nat i)
            else buf ! k)"
      proof cases
        case 1
        then show ?thesis using ih(3) k lb1 inb by (simp add: b1_def nat_add_distrib)
      next
        case 2
        then show ?thesis using ih(3) k lb1 inb True by (simp add: b1_def nat_add_distrib outs)
      next
        case 3
        then have "k - nat i = Suc (k - nat (i + 1))" using inb by (simp add: nat_add_distrib)
        then show ?thesis using 3 ih(3) k lb1 inb True by (simp add: b1_def nat_add_distrib outs)
      qed
    qed
    then show ?thesis using step ih(1,2) lb1 it by simp
  qed
qed

lemma next_outputs_closed:
  "j < k \<Longrightarrow> next_outputs k sm ! j = target sm + coeff sm ^ Suc j * (current sm - target sm)"
proof (induction k arbitrary: sm j)
  case 0 then show ?case by simp
next
  case (Suc k)
  show ?case
  proof (cases j)
    case 0
    then show ?thesis by (simp add: next_fields algebra_simps)
  next
    case (Suc j')
    with Suc.prems have "j' < k" by simp
    from Suc.IH[OF this, of "snd (ParamSmoother_next sm)"] Suc
    show ?thesis by (simp add: next_fields algebra_simps)
  qed
qed

section \<open>Properties of GainStage\<close>

lemma neg_one_div: "(a::real) * (- 1 / x) = - a / x"
  by simp

lemma unit_response_sample_closed:
  assumes sr: "0 < sampleRate" and k: "k < n"
  shows "unit_response_sample sampleRate g n k =
     Some (targetGainLinear (GainStage_setGainDb g GainStage_init)
           + exp (- real (Suc k) / (kSmoothingMs / 1000 * sampleRate))
             * (1 - targetGainLinear (GainStage_setGainDb g GainStage_init)))"
proof -
  define T where "T = targetGainLinear (GainStage_setGainDb g GainStage_init)"
  define c where "c = exp (- 1 / (kSmoothingMs / 1000 * sampleRate))"
  define g0 where "g0 = GainStage_setGainDb g (GainStage_prepare sampleRate (int n) GainStage_init)"
  define sm where "sm = ParamSmoother_setTarget (targetGainLinear g0) (smoother g0)"
  have sm_eq: "sm = \<lparr>current = 1, target = T, coeff = c\<rparr>"
    using sr by (simp add: sm_def g0_def T_def c_def GainStage_setGainDb_def GainStage_prepare_def
        GainStage_init_def ParamSmoother_init_def ParamSmoother_prepare_def ParamSmoother_snap_def
        ParamSmoother_setTarget_def Let_def kSmoothingMs_def)
  from GainStage_process_loop_spec[of 0 "int n" "replicate n 1" sm]
  obtain buf' where l: "GainStage_process_loop 0 (int n) (replicate n 1) sm = Some (buf', next_iter n sm)"
    "\<forall>j<n. buf' ! j = (if j < n then replicate n 1 ! j * next_outputs n sm ! j else replicate n 1 ! j)"
    by auto
  have "buf' ! k = next_outputs n sm ! k" using l(2) k by simp
  also have "\<dots> = T + c ^ Suc k * (1 - T)"
    using next_outputs_closed[OF k, of sm] by (simp add: sm_eq)
  also have "c ^ Suc k = exp (real (Suc k) * (- 1 / (kSmoothingMs / 1000 * sampleRate)))"
    unfolding c_def by (rule exp_of_nat_mult[symmetric])
  also have "real (Suc k) * (- 1 / (kSmoothingMs / 1000 * sampleRate))
      = - real (Suc k) / (kSmoothingMs / 1000 * sampleRate)"
    by (rule neg_one_div)
  finally have bk: "buf' ! k = T + exp (- real (Suc k) / (kSmoothingMs / 1000 * sampleRate)) * (1 - T)" .
  have "unit_response sampleRate g n = Some (buf', g0\<lparr>smoother := next_iter n sm\<rparr>)"
    using l(1) by (simp add: unit_response_def GainStage_process_def Let_def g0_def[symmetric] sm_def[symmetric])
  then show ?thesis using k bk by (simp add: unit_response_sample_def T_def)
qed

lemma exp_14_lower: "(999000::real) \<le> exp 14"
proof -
  have "(41/32::real) \<le> exp (1/4)"
    using exp_lower_Taylor_quadratic[of "1/4::real"] by (simp add: power2_eq_square)
  then have "(41/32::real) ^ 56 \<le> exp (1/4) ^ 56"
    by (intro power_mono) simp_all
  also have "exp (1/4::real) ^ 56 = exp 14"
    using exp_of_nat_mult[of 56 "1/4::real"] by simp
  finally have "(41/32::real) ^ 56 \<le> exp 14" .
  moreover have "(999000::real) \<le> (41/32) ^ 56" by (simp add: power_divide)
  ultimately show ?thesis by linarith
qed

lemma exp_5_upper: "exp (5::real) \<le> 243"
proof -
  have "exp (5::real) = exp 1 ^ 5" using exp_of_nat_mult[of 5 "1::real"] by simp
  also have "\<dots> \<le> 3 ^ 5" by (intro power_mono exp_le) simp
  finally show ?thesis by simp
qed

lemma target_in_range:
  assumes "- 60 \<le> g" "g \<le> 24"
  shows "targetGainLinear (GainStage_setGainDb g G) = 10 powr (g / 20)"
    and "1 / 1000 \<le> (10::real) powr (g / 20)"
proof -
  have "(10::real) powr (- 3) \<le> 10 powr (g / 20)"
    using assms by (intro powr_mono) simp_all
  moreover have "(10::real) powr (- 3) = 1 / 1000"
    by (simp add: powr_neg_numeral)
  ultimately show fl: "1 / 1000 \<le> (10::real) powr (g / 20)" by simp
  show "targetGainLinear (GainStage_setGainDb g G) = 10 powr (g / 20)"
    using assms fl by (simp add: GainStage_setGainDb_def Let_def std_clamp_def std_max_def
        kMinDb_def kMaxDb_def kMinLin_def dbToLinear_def)
qed

text \<open>
  C6. \<open>ParamSmoother::prepare(sampleRate, smoothingMs)\<close> sets the coefficient to
  \<open>exp(-1 / ((smoothingMs/1000) * sampleRate))\<close> when both arguments are strictly positive
  and to 0 otherwise, and touches no other field. Every call of \<open>next()\<close> replaces
  \<open>current\<close> by \<open>coeff * current + (1 - coeff) * target\<close> and returns the new value;
  \<open>setTarget\<close> and \<open>snap\<close> leave the coefficient alone. With coefficient 0 one call of
  \<open>next()\<close> returns the target exactly.
\<close>

theorem C6_smoother_prepare_next:
  "coeff (ParamSmoother_prepare sampleRate smoothingMs sm) =
     (if 0 < sampleRate \<and> 0 < smoothingMs
      then exp (- 1 / ((smoothingMs / 1000) * sampleRate)) else 0)
   \<and> current (ParamSmoother_prepare sampleRate smoothingMs sm) = current sm
   \<and> target (ParamSmoother_prepare sampleRate smoothingMs sm) = target sm
   \<and> ParamSmoother_next s =
       (coeff s * current s + (1 - coeff s) * target s,
        s\<lparr>current := coeff s * current s + (1 - coeff s) * target s\<rparr>)
   \<and> coeff (ParamSmoother_setTarget t s) = coeff s
   \<and> coeff (ParamSmoother_snap v s) = coeff s
   \<and> (coeff s = 0 \<longrightarrow> ParamSmoother_next s = (target s, s\<lparr>current := target s\<rparr>))"
  by (simp add: ParamSmoother_prepare_def ParamSmoother_next_def ParamSmoother_setTarget_def
      ParamSmoother_snap_def Let_def)

text \<open>
  The instance \<open>prepare(0, 10)\<close> on a default smoother followed by \<open>setTarget(5)\<close>:
  the coefficient is 0 and \<open>next()\<close> returns 5.
\<close>

theorem C6_smoother_prepare_next_witness:
  "coeff (ParamSmoother_prepare 0 10 ParamSmoother_init) = 0
   \<and> ParamSmoother_next (ParamSmoother_setTarget 5 (ParamSmoother_prepare 0 10 ParamSmoother_init))
       = (5, \<lparr>current = 5, target = 5, coeff = 0\<rparr>)"
  using C6_smoother_prepare_next [of 0 10 ParamSmoother_init
      "ParamSmoother_setTarget 5 (ParamSmoother_prepare 0 10 ParamSmoother_init)" 0 0]
  by (simp add: ParamSmoother_prepare_def ParamSmoother_setTarget_def ParamSmoother_init_def)

text \<open>
  C9. For every \<open>db\<close> in \<open>[-60, 24]\<close>, \<open>setGainDb(db)\<close> followed by \<open>getGainDb()\<close>
  returns \<open>db\<close> in exact real arithmetic: the clamp is the identity there, the
  linear value \<open>10^(db/20)\<close> is at least \<open>kMinLin\<close> and is what gets stored, and
  \<open>20 * log10\<close> of it is \<open>db\<close>.
\<close>

theorem C9_setGainDb_getGainDb_roundtrip:
  "- 60 \<le> db \<Longrightarrow> db \<le> 24 \<Longrightarrow>
     std_clamp db kMinDb kMaxDb = db
   \<and> kMinLin \<le> 10 powr (db / 20)
   \<and> targetGainLinear (GainStage_setGainDb db g) = 10 powr (db / 20)
   \<and> GainStage_getGainDb (GainStage_setGainDb db g) = db"
proof -
  assume lo: "- 60 \<le> db" and hi: "db \<le> 24"
  have cl: "std_clamp db kMinDb kMaxDb = db"
    using lo hi by (simp add: std_clamp_def kMinDb_def kMaxDb_def)
  have fl: "kMinLin \<le> 10 powr (db / 20)"
    using target_in_range(2)[OF lo hi] by (simp add: kMinLin_def)
  have tg: "targetGainLinear (GainStage_setGainDb db g) = 10 powr (db / 20)"
    using fl by (simp add: GainStage_setGainDb_def cl std_max_def dbToLinear_def Let_def)
  have pos: "0 < (10::real) powr (db / 20)" by simp
  have "GainStage_getGainDb (GainStage_setGainDb db g) = db"
    using pos by (simp add: GainStage_getGainDb_def tg linearToDb_def not_le[symmetric] del: powr_gt_zero)
  with cl fl tg show ?thesis by simp
qed

text \<open>The instance \<open>db = 0\<close> on a freshly constructed stage: the stored target is 1.\<close>

theorem C9_setGainDb_getGainDb_roundtrip_witness:
  "(- 60::real) \<le> 0 \<and> (0::real) \<le> 24
   \<and> targetGainLinear (GainStage_setGainDb 0 GainStage_init) = 1
   \<and> GainStage_getGainDb (GainStage_setGainDb 0 GainStage_init) = 0"
  using C9_setGainDb_getGainDb_roundtrip [of 0 GainStage_init] by simp

text \<open>
  C5. For every \<open>db\<close>, \<open>setGainDb(db)\<close> stores
  \<open>max(10^(clamp(db, -60, 24)/20), 1e-3)\<close> as the linear gain target and changes nothing
  in the smoother. \<open>process(buffer, n)\<close> with \<open>0 \<le> n \<le> length buffer\<close> returns; it
  installs the target read at the start of the block as the smoother's target, and sample
  \<open>k < n\<close> of the buffer is multiplied by the \<open>(k+1)\<close>-th value that \<open>next()\<close> returns
  from that smoother, while the samples from \<open>n\<close> on are unchanged. The smoother's target
  after the block is still the value read at its start.
\<close>

theorem C5_setGainDb_process:
  "targetGainLinear (GainStage_setGainDb db g) = max (10 powr (max (- 60) (min 24 db) / 20)) (1 / 1000)
   \<and> smoother (GainStage_setGainDb db g) = smoother g
   \<and> (0 \<le> n \<and> n \<le> int (length buf) \<longrightarrow>
        (\<exists>buf'. GainStage_process buf n g0 =
             Some (buf', g0\<lparr>smoother := next_iter (nat n)
                       (ParamSmoother_setTarget (targetGainLinear g0) (smoother g0))\<rparr>)
           \<and> length buf' = length buf
           \<and> (\<forall>k<length buf. buf' ! k =
                (if k < nat n
                 then buf ! k * next_outputs (nat n)
                        (ParamSmoother_setTarget (targetGainLinear g0) (smoother g0)) ! k
                 else buf ! k))))
   \<and> target (next_iter (nat n) (ParamSmoother_setTarget (targetGainLinear g0) (smoother g0)))
       = targetGainLinear g0"
proof -
  have a: "targetGainLinear (GainStage_setGainDb db g) = max (10 powr (max (- 60) (min 24 db) / 20)) (1 / 1000)"
    by (simp add: GainStage_setGainDb_def Let_def std_max_max std_clamp_max_min kMinDb_def
        kMaxDb_def kMinLin_def dbToLinear_def)
  have b: "smoother (GainStage_setGainDb db g) = smoother g"
    by (simp add: GainStage_setGainDb_def Let_def)
  have c: "\<exists>buf'. GainStage_process buf n g0 =
             Some (buf', g0\<lparr>smoother := next_iter (nat n)
                       (ParamSmoother_setTarget (targetGainLinear g0) (smoother g0))\<rparr>)
           \<and> length buf' = length buf
           \<and> (\<forall>k<length buf. buf' ! k =
                (if k < nat n
                 then buf ! k * next_outputs (nat n)
                        (ParamSmoother_setTarget (targetGainLinear g0) (smoother g0)) ! k
                 else buf ! k))" if h: "0 \<le> n" "n \<le> int (length buf)"
  proof -
    from GainStage_process_loop_spec[of 0 n buf "ParamSmoother_setTarget (targetGainLinear g0) (smoother g0)"] h
    obtain buf' where l: "GainStage_process_loop 0 n buf (ParamSmoother_setTarget (targetGainLinear g0) (smoother g0))
        = Some (buf', next_iter (nat n) (ParamSmoother_setTarget (targetGainLinear g0) (smoother g0)))"
      "length buf' = length buf"
      "\<forall>k<length buf. buf' ! k =
                (if k < nat n
                 then buf ! k * next_outputs (nat n)
                        (ParamSmoother_setTarget (targetGainLinear g0) (smoother g0)) ! k
                 else buf ! k)"
      by auto
    show ?thesis
      by (rule exI[of _ buf']) (simp add: GainStage_process_def Let_def l)
  qed
  have d: "target (next_iter (nat n) (ParamSmoother_setTarget (targetGainLinear g0) (smoother g0)))
       = targetGainLinear g0"
    by (simp add: next_iter_fields ParamSmoother_setTarget_def)
  from a b c d show ?thesis by blast
qed

text \<open>
  The instance \<open>setGainDb(20)\<close> on a freshly constructed (unprepared) stage, then a
  block of the two samples 2 and 3: the target is 10 and the block becomes 20 and 30.
\<close>

theorem C5_setGainDb_process_witness:
  "(0::int) \<le> 2 \<and> (2::int) \<le> int (length [2, 3::real])
   \<and> targetGainLinear (GainStage_setGainDb 20 GainStage_init) = 10
   \<and> (\<exists>buf'. GainStage_process [2, 3] 2 (GainStage_setGainDb 20 GainStage_init) =
         Some (buf', \<lparr>targetGainLinear = 10, smoother = \<lparr>current = 10, target = 10, coeff = 0\<rparr>\<rparr>)
       \<and> length buf' = 2 \<and> buf' ! 0 = 20 \<and> buf' ! 1 = 30)"
proof -
  have t: "targetGainLinear (GainStage_setGainDb 20 GainStage_init) = 10"
    by (simp add: GainStage_setGainDb_def Let_def std_clamp_def std_max_def kMinDb_def kMaxDb_def
        kMinLin_def dbToLinear_def)
  have g: "GainStage_setGainDb 20 GainStage_init =
      \<lparr>targetGainLinear = 10, smoother = \<lparr>current = 0, target = 0, coeff = 0\<rparr>\<rparr>"
    using t by (simp add: GainStage_setGainDb_def Let_def GainStage_init_def ParamSmoother_init_def)
  have n2: "nat 2 = Suc (Suc 0)" by simp
  show ?thesis
    using C5_setGainDb_process [of 20 GainStage_init 2 "[2, 3]" "GainStage_setGainDb 20 GainStage_init"]
    unfolding g n2
    by (auto simp add: ParamSmoother_setTarget_def ParamSmoother_next_def Let_def less_Suc_eq
        GainStage_init_def ParamSmoother_init_def all_conj_distrib)
qed

lemma next_iter_current:
  "current (next_iter n sm) = target sm + coeff sm ^ n * (current sm - target sm)"
proof (induction n arbitrary: sm)
  case 0
  then show ?case by simp
next
  case (Suc n)
  show ?case
    by (simp add: Suc.IH next_fields algebra_simps)
qed

lemma unit_block_process:
  fixes G :: GainStage
  defines "T \<equiv> targetGainLinear G" and "c \<equiv> coeff (smoother G)" and "x0 \<equiv> current (smoother G)"
  shows "\<exists>out G'. GainStage_process (replicate n 1) (int n) G = Some (out, G')
     \<and> length out = n
     \<and> (\<forall>k<n. out ! k = T + c ^ Suc k * (x0 - T))
     \<and> targetGainLinear G' = T \<and> coeff (smoother G') = c
     \<and> current (smoother G') = T + c ^ n * (x0 - T)"
proof -
  define sm where "sm = ParamSmoother_setTarget T (smoother G)"
  have smf: "target sm = T" "coeff sm = c" "current sm = x0"
    by (simp_all add: sm_def ParamSmoother_setTarget_def c_def x0_def)
  from GainStage_process_loop_spec[of 0 "int n" "replicate n 1" sm]
  obtain buf' where l: "GainStage_process_loop 0 (int n) (replicate n 1) sm = Some (buf', next_iter n sm)"
    "length buf' = n"
    "\<forall>j<n. buf' ! j = (if j < n then replicate n 1 ! j * next_outputs n sm ! j else replicate n 1 ! j)"
    by auto
  have out: "\<forall>k<n. buf' ! k = T + c ^ Suc k * (x0 - T)"
  proof (intro allI impI)
    fix k assume k: "k < n"
    then have "buf' ! k = next_outputs n sm ! k" using l(3) by simp
    also have "\<dots> = T + c ^ Suc k * (x0 - T)"
      using next_outputs_closed[OF k, of sm] by (simp add: smf)
    finally show "buf' ! k = T + c ^ Suc k * (x0 - T)" .
  qed
  have p: "GainStage_process (replicate n 1) (int n) G = Some (buf', G\<lparr>smoother := next_iter n sm\<rparr>)"
    using l(1) by (simp add: GainStage_process_def Let_def sm_def T_def)
  have f: "targetGainLinear (G\<lparr>smoother := next_iter n sm\<rparr>) = T"
    "coeff (smoother (G\<lparr>smoother := next_iter n sm\<rparr>)) = c"
    "current (smoother (G\<lparr>smoother := next_iter n sm\<rparr>)) = T + c ^ n * (x0 - T)"
    by (simp_all add: T_def next_iter_fields next_iter_current smf)
  from p l(2) out f show ?thesis by blast
qed

lemma unit_blocks_process:
  "\<exists>out G'. GainStage_process_blocks (unit_blocks ns) G = Some (out, G')
     \<and> length out = sum_list ns
     \<and> (\<forall>k < sum_list ns. out ! k =
           targetGainLinear G + coeff (smoother G) ^ Suc k * (current (smoother G) - targetGainLinear G))"
proof (induction ns arbitrary: G)
  case Nil
  then show ?case by (simp add: unit_blocks_def)
next
  case (Cons n ns)
  define T where "T = targetGainLinear G"
  define c where "c = coeff (smoother G)"
  define x0 where "x0 = current (smoother G)"
  from unit_block_process[of n G]
  obtain out1 G1 where b: "GainStage_process (replicate n 1) (int n) G = Some (out1, G1)"
    "length out1 = n" "\<forall>k<n. out1 ! k = T + c ^ Suc k * (x0 - T)"
    "targetGainLinear G1 = T" "coeff (smoother G1) = c"
    "current (smoother G1) = T + c ^ n * (x0 - T)"
    unfolding T_def c_def x0_def by blast
  from Cons.IH[of G1]
  obtain out2 G2 where r: "GainStage_process_blocks (unit_blocks ns) G1 = Some (out2, G2)"
    "length out2 = sum_list ns"
    "\<forall>k < sum_list ns. out2 ! k = T + c ^ Suc k * (T + c ^ n * (x0 - T) - T)"
    unfolding b(4,5,6) by blast
  have p: "GainStage_process_blocks (unit_blocks (n # ns)) G = Some (out1 @ out2, G2)"
    using b(1) r(1) by (simp add: unit_blocks_def)
  have "\<forall>k < sum_list (n # ns). (out1 @ out2) ! k = T + c ^ Suc k * (x0 - T)"
  proof (intro allI impI)
    fix k assume k: "k < sum_list (n # ns)"
    show "(out1 @ out2) ! k = T + c ^ Suc k * (x0 - T)"
    proof (cases "k < n")
      case True
      then show ?thesis using b(2,3) by (simp add: nth_append)
    next
      case False
      then have j: "k - n < sum_list ns" using k by simp
      have "(out1 @ out2) ! k = out2 ! (k - n)" using False b(2) by (simp add: nth_append)
      also have "\<dots> = T + c ^ Suc (k - n) * (c ^ n * (x0 - T))" using r(3) j by simp
      also have "c ^ Suc (k - n) * (c ^ n * (x0 - T)) = c ^ (Suc (k - n) + n) * (x0 - T)"
        by (simp add: power_add)
      also have "Suc (k - n) + n = Suc k" using False by simp
      finally show ?thesis .
    qed
  qed
  then show ?case
    using p b(2) r(2) unfolding T_def c_def x0_def by simp
qed

lemma stream_sample_unit_blocks:
  assumes "k < sum_list ns"
  shows "stream_sample (GainStage_process_blocks (unit_blocks ns) G) k =
     Some (targetGainLinear G
           + coeff (smoother G) ^ Suc k * (current (smoother G) - targetGainLinear G))"
proof -
  from unit_blocks_process[of ns G]
  obtain out G' where r: "GainStage_process_blocks (unit_blocks ns) G = Some (out, G')"
    "length out = sum_list ns"
    "\<forall>k < sum_list ns. out ! k =
           targetGainLinear G + coeff (smoother G) ^ Suc k * (current (smoother G) - targetGainLinear G)"
    by blast
  show ?thesis using assms r by (simp add: stream_sample_def)
qed

lemma prepared_fields:
  "targetGainLinear (GainStage_prepare sampleRate mbs G) = targetGainLinear G"
  "current (smoother (GainStage_prepare sampleRate mbs G)) = targetGainLinear G"
  "0 < sampleRate \<Longrightarrow> coeff (smoother (GainStage_prepare sampleRate mbs G)) =
      exp (- 1 / (kSmoothingMs / 1000 * sampleRate))"
  by (simp_all add: GainStage_prepare_def ParamSmoother_prepare_def ParamSmoother_snap_def
      Let_def kSmoothingMs_def)

lemma setGainDb_fields:
  "smoother (GainStage_setGainDb g G) = smoother G"
  by (simp add: GainStage_setGainDb_def Let_def)

lemma exp_pow_time: "exp (- 1 / x) ^ Suc k = exp (- real (Suc k) / x)"
proof -
  have "exp (- 1 / x) ^ Suc k = exp (real (Suc k) * (- 1 / x))"
    by (rule exp_of_nat_mult[symmetric])
  also have "real (Suc k) * (- 1 / x) = - real (Suc k) / x"
    by (rule neg_one_div)
  finally show ?thesis .
qed

text \<open>
  The single-block scenario \<open>unit_response\<close> on a freshly constructed stage is the
  instance of the block stream with one block.
\<close>

lemma unit_response_sample_stream:
  "unit_response_sample sampleRate g n k =
     stream_sample (GainStage_process_blocks (unit_blocks [n])
       (GainStage_setGainDb g (GainStage_prepare sampleRate (int n) GainStage_init))) k"
proof -
  from unit_block_process[of n "GainStage_setGainDb g (GainStage_prepare sampleRate (int n) GainStage_init)"]
  obtain out G' where r: "GainStage_process (replicate n 1) (int n)
      (GainStage_setGainDb g (GainStage_prepare sampleRate (int n) GainStage_init)) = Some (out, G')"
    "length out = n"
    by blast
  show ?thesis
    using r by (simp add: unit_response_sample_def unit_response_def stream_sample_def unit_blocks_def)
qed

text \<open>
  C7 (amended). In exact real arithmetic (rounding to binary32 is not modelled): for every
  gain \<open>g\<close> in \<open>[-60, 24]\<close> dB, every positive sample rate and every stage \<open>G0\<close>, after
  \<open>prepare\<close> and then \<open>setGainDb(g)\<close>, sample \<open>k\<close> of the output for a constant unit-valued
  input, fed in blocks of any sizes, is \<open>T + exp(-(k+1) / (tau * sampleRate)) * (T0 - T)\<close>,
  where \<open>T = 10^(g/20)\<close>, \<open>tau = kSmoothingMs / 1000\<close> and \<open>T0\<close> is the gain target of \<open>G0\<close>,
  in force when \<open>prepare\<close> is called (1 on a freshly constructed stage). The sample is
  within \<open>1e-3\<close> relative tolerance of \<open>T\<close> exactly when
  \<open>exp(-(k+1) / (tau * sampleRate)) * |T0 - T| \<le> T / 1000\<close>; this holds once 14 smoothing
  time constants of samples have been processed whenever \<open>0 \<le> T0 \<le> 1\<close>. For \<open>g = 0\<close> and
  \<open>T0 = 1\<close> every output sample equals the input sample 1. When \<open>setGainDb(g)\<close> is called
  before \<open>prepare\<close>, every output sample equals \<open>T\<close>, from the first one on.
\<close>

theorem C7_unit_response_convergence:
  assumes g: "- 60 \<le> g" "g \<le> 24" and sr: "0 < sampleRate" and k: "k < sum_list ns"
  shows "stream_sample (GainStage_process_blocks (unit_blocks ns)
             (GainStage_setGainDb g (GainStage_prepare sampleRate mbs G0))) k =
           Some (10 powr (g / 20)
                 + exp (- real (Suc k) / (kSmoothingMs / 1000 * sampleRate))
                   * (targetGainLinear G0 - 10 powr (g / 20)))
       \<and> (\<exists>y. stream_sample (GainStage_process_blocks (unit_blocks ns)
                  (GainStage_setGainDb g (GainStage_prepare sampleRate mbs G0))) k = Some y
              \<and> (\<bar>y - 10 powr (g / 20)\<bar> \<le> (1 / 1000) * 10 powr (g / 20)) =
                 (exp (- real (Suc k) / (kSmoothingMs / 1000 * sampleRate))
                    * \<bar>targetGainLinear G0 - 10 powr (g / 20)\<bar> \<le> (1 / 1000) * 10 powr (g / 20)))
       \<and> (0 \<le> targetGainLinear G0 \<and> targetGainLinear G0 \<le> 1
            \<and> 14 * (kSmoothingMs / 1000 * sampleRate) \<le> real (Suc k) \<longrightarrow>
            (\<exists>y. stream_sample (GainStage_process_blocks (unit_blocks ns)
                    (GainStage_setGainDb g (GainStage_prepare sampleRate mbs G0))) k = Some y
                 \<and> \<bar>y - 10 powr (g / 20)\<bar> \<le> (1 / 1000) * 10 powr (g / 20)))
       \<and> (targetGainLinear G0 = 1 \<and> g = 0 \<longrightarrow>
            stream_sample (GainStage_process_blocks (unit_blocks ns)
              (GainStage_setGainDb g (GainStage_prepare sampleRate mbs G0))) k = Some 1)
       \<and> stream_sample (GainStage_process_blocks (unit_blocks ns)
             (GainStage_prepare sampleRate mbs (GainStage_setGainDb g G0))) k =
           Some (10 powr (g / 20))"
proof -
  define T :: real where "T = 10 powr (g / 20)"
  define T0 where "T0 = targetGainLinear G0"
  define tau where "tau = kSmoothingMs / 1000 * sampleRate"
  define e where "e = exp (- real (Suc k) / tau)"
  define A where "A = GainStage_setGainDb g (GainStage_prepare sampleRate mbs G0)"
  define B where "B = GainStage_prepare sampleRate mbs (GainStage_setGainDb g G0)"
  have taupos: "0 < tau" using sr by (simp add: tau_def kSmoothingMs_def)
  have Tlo: "1 / 1000 \<le> T" using target_in_range(2)[OF g] by (simp add: T_def)
  have e0: "0 \<le> e" by (simp add: e_def)
  have Af: "targetGainLinear A = T" "current (smoother A) = T0"
    "coeff (smoother A) = exp (- 1 / tau)"
    using target_in_range(1)[OF g] sr
    by (simp_all add: A_def T_def T0_def tau_def setGainDb_fields prepared_fields)
  have Bf: "targetGainLinear B = T" "current (smoother B) = T"
    using target_in_range(1)[OF g]
    by (simp_all add: B_def T_def prepared_fields)
  have sa: "stream_sample (GainStage_process_blocks (unit_blocks ns) A) k = Some (T + e * (T0 - T))"
    using stream_sample_unit_blocks[OF k, of A]
    unfolding Af exp_pow_time e_def .
  have sb: "stream_sample (GainStage_process_blocks (unit_blocks ns) B) k = Some T"
    using stream_sample_unit_blocks[OF k, of B] unfolding Bf by simp
  have err: "\<bar>(T + e * (T0 - T)) - T\<bar> = e * \<bar>T0 - T\<bar>"
    using e0 by (simp add: abs_mult)
  have iff: "(\<bar>(T + e * (T0 - T)) - T\<bar> \<le> (1 / 1000) * T) = (e * \<bar>T0 - T\<bar> \<le> (1 / 1000) * T)"
    unfolding err ..
  have bound: "\<bar>(T + e * (T0 - T)) - T\<bar> \<le> (1 / 1000) * T"
    if t0: "0 \<le> T0" "T0 \<le> 1" and far: "14 * tau \<le> real (Suc k)"
  proof -
    have "- real (Suc k) / tau \<le> - 14"
      using far taupos by (simp add: field_simps)
    then have "e \<le> exp (- 14)" by (simp add: e_def)
    also have "\<dots> \<le> 1 / 999000"
      using exp_14_lower by (simp add: exp_minus field_simps)
    finally have e1: "e \<le> 1 / 999000" .
    have ab: "\<bar>T0 - T\<bar> \<le> 999 * T" using Tlo t0 by (simp add: abs_le_iff)
    have "e * \<bar>T0 - T\<bar> \<le> (1 / 999000) * (999 * T)"
      using e1 e0 ab by (intro mult_mono) simp_all
    also have "\<dots> = (1 / 1000) * T" by simp
    finally show ?thesis unfolding err .
  qed
  have unity: "stream_sample (GainStage_process_blocks (unit_blocks ns) A) k = Some 1"
    if "T0 = 1" "g = 0"
    using sa that by (simp add: T_def)
  from sa sb iff bound unity show ?thesis
    unfolding T_def T0_def e_def tau_def A_def B_def by auto
qed

text \<open>
  The instance \<open>g = 0\<close> at 48 kHz on a freshly constructed stage, with the input cut into
  a block of 2400 and a block of 4320 samples: sample 6719 is the last of 14 time
  constants (\<open>14 * 480 = 6720\<close> samples) and equals 1 in either order of the two calls.
\<close>

theorem C7_unit_response_convergence_witness:
  "(- 60::real) \<le> 0 \<and> (0::real) \<le> 24 \<and> (0::real) < 48000 \<and> (6719::nat) < sum_list [2400, 4320]
   \<and> targetGainLinear GainStage_init = 1
   \<and> 14 * (kSmoothingMs / 1000 * 48000) \<le> real (Suc 6719)
   \<and> stream_sample (GainStage_process_blocks (unit_blocks [2400, 4320])
         (GainStage_setGainDb 0 (GainStage_prepare 48000 4320 GainStage_init))) 6719 = Some 1
   \<and> stream_sample (GainStage_process_blocks (unit_blocks [2400, 4320])
         (GainStage_prepare 48000 4320 (GainStage_setGainDb 0 GainStage_init))) 6719 = Some 1"
proof -
  have k: "(6719::nat) < sum_list [2400, 4320]" by simp
  have t: "targetGainLinear GainStage_init = 1" by (simp add: GainStage_init_def)
  have far: "14 * (kSmoothingMs / 1000 * 48000) \<le> real (Suc 6719)" by (simp add: kSmoothingMs_def)
  show ?thesis
    using C7_unit_response_convergence [of 0 48000 6719 "[2400, 4320]" 4320 GainStage_init, OF _ _ _ k]
      k t far
    by simp
qed

text \<open>
  C7 as stated fails: at 48 kHz five time constants are 2400 samples, and for \<open>g = -60\<close>
  on a freshly constructed stage (\<open>prepare\<close>, then \<open>setGainDb\<close>, then one block) the 2400th
  output sample is \<open>1/1000 + exp(-5) * 999/1000\<close>, which is not within
  \<open>1e-3\<close> relative tolerance of \<open>10^(-60/20) = 1/1000\<close>.
\<close>

theorem C7_five_time_constants_counterexample:
  "5 * (kSmoothingMs / 1000 * 48000) = real (Suc 2399)
   \<and> unit_response_sample 48000 (- 60) 2400 2399 = Some (1 / 1000 + exp (- 5) * (999 / 1000))
   \<and> \<not> \<bar>(1 / 1000 + exp (- 5) * (999 / 1000)) - 10 powr (- 60 / 20)\<bar>
          \<le> (1 / 1000 :: real) * 10 powr (- 60 / 20)"
proof -
  have p: "(10::real) powr (- 60 / 20) = 1 / 1000"
    by (simp add: powr_neg_numeral)
  have t: "targetGainLinear (GainStage_setGainDb (- 60) GainStage_init) = 1 / 1000"
    using target_in_range(1)[of "- 60" GainStage_init] p by simp
  have a: "unit_response_sample 48000 (- 60) 2400 2399 = Some (1 / 1000 + exp (- 5) * (999 / 1000))"
    using unit_response_sample_closed[of 48000 2399 2400 "- 60"]
    by (simp add: t kSmoothingMs_def)
  have "1 / 243 \<le> exp (- 5::real)"
    using exp_5_upper by (simp add: exp_minus field_simps)
  then have b: "\<not> \<bar>(1 / 1000 + exp (- 5) * (999 / 1000)) - 10 powr (- 60 / 20)\<bar>
          \<le> (1 / 1000 :: real) * 10 powr (- 60 / 20)"
    unfolding p by (simp add: abs_mult)
  show ?thesis using a b by (simp add: kSmoothingMs_def)
qed

section \<open>Properties of ParamRegistry\<close>

lemma kNumParams_43: "kNumParams = 43"
  by (simp add: kNumParams_def kCount_def)

lemmas ParamId_defs = BloomBasePre_dB_def BloomBasePost_dB_def BloomPreDepth_def BloomPostDepth_def
  EnvAttackMs_def EnvReleaseMs_def EqBand1Freq_def EqBand1GainDb_def EqBand1Q_def EqBand2Freq_def
  EqBand2GainDb_def EqBand2Q_def EqBand3Freq_def EqBand3GainDb_def EqBand3Q_def MasterGain_dB_def
  ReverbRoomSize_def ReverbDamping_def ReverbWet_Norm_def

lemma length_kParamInfo: "length kParamInfo = 43"
  by (simp add: kParamInfo_def Let_def kNumParams_43)

lemma kParamInfo_master: "kParamInfo ! 30 = \<lparr>defaultValue = 0, minValue = - 60, maxValue = 24\<rparr>"
  by (simp add: kParamInfo_def Let_def kNumParams_43 idx_def ParamId_defs)

lemma kParamInfo_gap:
  "k \<in> {6..9} \<union> {19..29} \<union> {31..39} \<Longrightarrow>
   kParamInfo ! k = \<lparr>defaultValue = 0, minValue = - 1000000000, maxValue = 1000000000\<rparr>"
  by (auto simp add: kParamInfo_def Let_def kNumParams_43 idx_def ParamId_defs)

lemma kParamInfo_ranges:
  "map (\<lambda>p. (minValue (kParamInfo ! idx p), maxValue (kParamInfo ! idx p))) registered_ids =
  [(- 24, 24), (- 24, 24), (0, 24), (0, 24), (1 / 10, 500), (1, 5000),
   (20, 20000), (- 24, 24), (1 / 10, 10), (20, 20000), (- 24, 24), (1 / 10, 10),
   (20, 20000), (- 24, 24), (1 / 10, 10), (- 60, 24), (0, 1), (0, 1), (0, 1)]"
  by (simp add: registered_ids_def kParamInfo_def Let_def kNumParams_43 idx_def ParamId_defs)

lemma kParamInfo_ordered:
  "k < 43 \<Longrightarrow> minValue (kParamInfo ! k) \<le> maxValue (kParamInfo ! k)
     \<and> maxValue (kParamInfo ! k) \<le> 1000000000"
  by (simp add: kParamInfo_def Let_def kNumParams_43 idx_def ParamId_defs nth_list_update)

lemma registered_sint:
  "pid \<in> set registered_ids \<Longrightarrow> sint pid \<in> {0..5} \<union> {10..18} \<union> {30} \<union> {40..42}"
  by (auto simp add: registered_ids_def ParamId_defs)

lemma gap_sint:
  "pid \<in> set gap_ids \<Longrightarrow> sint pid \<in> {6..9} \<union> {19..29} \<union> {31..39}"
  by (auto simp add: gap_ids_def)

lemma registered_in_range: "pid \<in> set registered_ids \<Longrightarrow> 0 \<le> sint pid \<and> sint pid < kNumParams"
  using registered_sint[of pid] by (auto simp add: kNumParams_43)

lemma gap_in_range:
  assumes "pid \<in> set gap_ids"
  shows "0 < sint pid \<and> sint pid < kNumParams
     \<and> nat (sint pid) \<in> {6..9} \<union> {19..29} \<union> {31..39} \<and> pid \<notin> set registered_ids"
proof -
  have g: "sint pid \<in> {6..9} \<union> {19..29} \<union> {31..39}" using gap_sint[OF assms] .
  have "pid \<notin> set registered_ids"
  proof
    assume "pid \<in> set registered_ids"
    from registered_sint[OF this] g show False by auto
  qed
  moreover have "nat (sint pid) \<in> {6..9} \<union> {19..29} \<union> {31..39}"
    using g by auto
  ultimately show ?thesis using g by (auto simp add: kNumParams_43)
qed

lemma set_get_in_range:
  assumes wf: "ParamRegistry_wf r" and i: "0 \<le> sint pid" "sint pid < kNumParams"
  shows "ParamRegistry_get pid (ParamRegistry_set pid v r) =
           max (minValue (kParamInfo ! idx pid)) (min (maxValue (kParamInfo ! idx pid)) v)"
    and "values_arr (ParamRegistry_set pid v r) =
           (values_arr r)[idx pid := max (minValue (kParamInfo ! idx pid)) (min (maxValue (kParamInfo ! idx pid)) v)]"
    and "ParamRegistry_wf (ParamRegistry_set pid v r)"
    and "ParamRegistry_get pid r = values_arr r ! idx pid"
proof -
  have k: "idx pid < 43" using i by (simp add: idx_def kNumParams_43)
  have len: "idx pid < length (values_arr r)"
    using wf k by (simp add: ParamRegistry_wf_def kNumParams_43)
  have cl: "std_clamp v (minValue (kParamInfo ! idx pid)) (maxValue (kParamInfo ! idx pid)) =
        max (minValue (kParamInfo ! idx pid)) (min (maxValue (kParamInfo ! idx pid)) v)"
    using kParamInfo_ordered[OF k] by (intro std_clamp_max_min) simp
  show "values_arr (ParamRegistry_set pid v r) =
           (values_arr r)[idx pid := max (minValue (kParamInfo ! idx pid)) (min (maxValue (kParamInfo ! idx pid)) v)]"
    using i cl by (simp add: ParamRegistry_set_def Let_def idx_def)
  then show "ParamRegistry_get pid (ParamRegistry_set pid v r) =
           max (minValue (kParamInfo ! idx pid)) (min (maxValue (kParamInfo ! idx pid)) v)"
    using i len by (simp add: ParamRegistry_get_def Let_def idx_def)
  show "ParamRegistry_wf (ParamRegistry_set pid v r)"
    using wf by (simp add: ParamRegistry_set_def ParamRegistry_wf_def Let_def)
  show "ParamRegistry_get pid r = values_arr r ! idx pid"
    using i by (simp add: ParamRegistry_get_def Let_def idx_def)
qed

lemma set_get_invalid:
  assumes "sint pid < 0 \<or> kNumParams \<le> sint pid"
  shows "ParamRegistry_set pid v r = r" and "ParamRegistry_get pid r = 0"
  using assms by (auto simp add: ParamRegistry_set_def ParamRegistry_get_def Let_def)

lemma resetToDefaults_loop_spec:
  "0 \<le> i \<Longrightarrow> length vs = 43 \<Longrightarrow>
     length (resetToDefaults_loop i vs) = 43
     \<and> (\<forall>k<43. resetToDefaults_loop i vs ! k =
            (if nat i \<le> k then defaultValue (kParamInfo ! k) else vs ! k))"
proof (induction i vs rule: resetToDefaults_loop.induct)
  case (1 i vs)
  show ?case
  proof (cases "i < kNumParams")
    case False
    then show ?thesis using 1(2,3)
      by (subst resetToDefaults_loop.simps, subst (2) resetToDefaults_loop.simps)
         (auto simp add: kNumParams_43)
  next
    case True
    define vs' where "vs' = vs[nat i := defaultValue (kParamInfo ! nat i)]"
    have step: "resetToDefaults_loop i vs = resetToDefaults_loop (i + 1) vs'"
      by (subst resetToDefaults_loop.simps) (simp add: True vs'_def)
    have ih: "length (resetToDefaults_loop (i + 1) vs') = 43
     \<and> (\<forall>k<43. resetToDefaults_loop (i + 1) vs' ! k =
            (if nat (i + 1) \<le> k then defaultValue (kParamInfo ! k) else vs' ! k))"
      using "1.IH"[OF True] 1(2,3) by (simp add: vs'_def)
    have "\<forall>k<43. resetToDefaults_loop (i + 1) vs' ! k =
            (if nat i \<le> k then defaultValue (kParamInfo ! k) else vs ! k)"
    proof (intro allI impI)
      fix k :: nat assume k: "k < 43"
      consider "k < nat i" | "k = nat i" | "nat i < k" by linarith
      then show "resetToDefaults_loop (i + 1) vs' ! k =
            (if nat i \<le> k then defaultValue (kParamInfo ! k) else vs ! k)"
      proof cases
        case 1
        then show ?thesis using ih k "1.prems" by (simp add: vs'_def nat_add_distrib)
      next
        case 2
        then show ?thesis using ih k "1.prems" by (simp add: vs'_def nat_add_distrib)
      next
        case 3
        then show ?thesis using ih k "1.prems" by (simp add: vs'_def nat_add_distrib)
      qed
    qed
    then show ?thesis using ih step by simp
  qed
qed

lemma ParamRegistry_new_wf: "ParamRegistry_wf ParamRegistry_new"
  using resetToDefaults_loop_spec[of 0 "replicate 43 0"]
  by (simp add: ParamRegistry_new_def ParamRegistry_resetToDefaults_def ParamRegistry_wf_def kNumParams_43)

lemma ParamRegistry_new_values:
  "k < 43 \<Longrightarrow> values_arr ParamRegistry_new ! k = defaultValue (kParamInfo ! k)"
  using resetToDefaults_loop_spec[of 0 "replicate 43 0"]
  by (simp add: ParamRegistry_new_def ParamRegistry_resetToDefaults_def kNumParams_43)

text \<open>
  C4. In a well-formed registry, for every enumerator \<open>pid\<close> of \<open>ParamId\<close> and every
  value \<open>v\<close>, \<open>get(pid)\<close> after \<open>set(pid, v)\<close> returns \<open>v\<close> clamped to the range that the
  static table holds for \<open>pid\<close>, and the registry stays well formed; the ranges of the
  enumerators, in declaration order, are the ones listed; \<open>set(MasterGain_dB, 999)\<close> makes
  \<open>get(MasterGain_dB)\<close> at most 24. For an id whose integer value is negative or at least
  \<open>kCount\<close>, \<open>set\<close> returns the registry unchanged and \<open>get\<close> returns 0.
\<close>

theorem C4_set_get_clamp:
  assumes wf: "ParamRegistry_wf r"
  shows "(pid \<in> set registered_ids \<longrightarrow>
            ParamRegistry_get pid (ParamRegistry_set pid v r) =
              max (minValue (kParamInfo ! idx pid)) (min (maxValue (kParamInfo ! idx pid)) v)
          \<and> ParamRegistry_wf (ParamRegistry_set pid v r))
       \<and> map (\<lambda>p. (minValue (kParamInfo ! idx p), maxValue (kParamInfo ! idx p))) registered_ids =
          [(- 24, 24), (- 24, 24), (0, 24), (0, 24), (1 / 10, 500), (1, 5000),
           (20, 20000), (- 24, 24), (1 / 10, 10), (20, 20000), (- 24, 24), (1 / 10, 10),
           (20, 20000), (- 24, 24), (1 / 10, 10), (- 60, 24), (0, 1), (0, 1), (0, 1)]
       \<and> ParamRegistry_get MasterGain_dB (ParamRegistry_set MasterGain_dB 999 r) \<le> 24
       \<and> (sint pid < 0 \<or> kNumParams \<le> sint pid \<longrightarrow>
            ParamRegistry_set pid v r = r \<and> ParamRegistry_get pid r = 0)"
proof -
  have m: "ParamRegistry_get MasterGain_dB (ParamRegistry_set MasterGain_dB 999 r) \<le> 24"
    using set_get_in_range(1)[OF wf, of MasterGain_dB 999] kParamInfo_master
    by (simp add: MasterGain_dB_def kNumParams_43 idx_def)
  show ?thesis
    using set_get_in_range(1,3)[OF wf] registered_in_range kParamInfo_ranges m set_get_invalid
    by blast
qed

text \<open>
  The freshly constructed registry: \<open>set(MasterGain_dB, 12)\<close> then \<open>get\<close> gives 12, and
  the id 43 (\<open>kCount\<close>) is ignored by \<open>set\<close> and reads 0.
\<close>

theorem C4_set_get_clamp_witness:
  "ParamRegistry_wf ParamRegistry_new \<and> MasterGain_dB \<in> set registered_ids
   \<and> ParamRegistry_get MasterGain_dB (ParamRegistry_set MasterGain_dB 12 ParamRegistry_new) = 12
   \<and> kNumParams \<le> sint (43 :: ParamId)
   \<and> ParamRegistry_set 43 12 ParamRegistry_new = ParamRegistry_new
   \<and> ParamRegistry_get 43 ParamRegistry_new = 0"
proof -
  have a: "MasterGain_dB \<in> set registered_ids" by (simp add: registered_ids_def)
  have b: "kNumParams \<le> sint (43 :: ParamId)" by (simp add: kNumParams_43)
  show ?thesis
    using C4_set_get_clamp [OF ParamRegistry_new_wf, of MasterGain_dB 12]
      C4_set_get_clamp [OF ParamRegistry_new_wf, of 43 12] a b ParamRegistry_new_wf kParamInfo_master
    by (simp add: idx_def MasterGain_dB_def)
qed

text \<open>
  C10. For every id \<open>pid\<close> in the gaps of the enumeration (6-9, 19-29, 31-39, strictly
  between 0 and \<open>kCount = 43\<close>, none of them an enumerator) and every well-formed
  registry: \<open>set(pid, v)\<close> stores \<open>v\<close> clamped to \<open>[-1e9, 1e9]\<close> in slot \<open>pid\<close>, \<open>get(pid)\<close>
  returns the stored value, which is 0 in a freshly constructed registry. For any id \<open>q\<close>,
  \<open>set(q, _)\<close> leaves every well-formed registry unchanged exactly when the integer value
  of \<open>q\<close> is below 0 or at least 43, and for those ids \<open>get(q)\<close> is 0.
\<close>

theorem C10_gap_ids:
  assumes wf: "ParamRegistry_wf r" and gap: "pid \<in> set gap_ids"
  shows "0 < sint pid \<and> sint pid < kNumParams \<and> kNumParams = 43 \<and> pid \<notin> set registered_ids
       \<and> values_arr (ParamRegistry_set pid v r) =
           (values_arr r)[nat (sint pid) := max (- 1000000000) (min 1000000000 v)]
       \<and> ParamRegistry_get pid (ParamRegistry_set pid v r) = max (- 1000000000) (min 1000000000 v)
       \<and> ParamRegistry_get pid r = values_arr r ! nat (sint pid)
       \<and> ParamRegistry_get pid ParamRegistry_new = 0
       \<and> ((\<forall>w s. ParamRegistry_wf s \<longrightarrow> ParamRegistry_set q w s = s) = (sint q < 0 \<or> kNumParams \<le> sint q))
       \<and> (sint q < 0 \<or> kNumParams \<le> sint q \<longrightarrow> ParamRegistry_get q r = 0)"
proof -
  note g = gap_in_range[OF gap]
  have i: "0 \<le> sint pid" "sint pid < kNumParams" using g by simp_all
  have k: "idx pid < 43" using i by (simp add: idx_def kNumParams_43)
  have info: "kParamInfo ! idx pid = \<lparr>defaultValue = 0, minValue = - 1000000000, maxValue = 1000000000\<rparr>"
    using g kParamInfo_gap[of "nat (sint pid)"] by (simp add: idx_def)
  have a: "values_arr (ParamRegistry_set pid v r) =
           (values_arr r)[nat (sint pid) := max (- 1000000000) (min 1000000000 v)]"
    using set_get_in_range(2)[OF wf i, of v] by (simp add: info) (simp add: idx_def)
  have b: "ParamRegistry_get pid (ParamRegistry_set pid v r) = max (- 1000000000) (min 1000000000 v)"
    using set_get_in_range(1)[OF wf i, of v] by (simp add: info)
  have c: "ParamRegistry_get pid r = values_arr r ! nat (sint pid)"
    using set_get_in_range(4)[OF wf i] by (simp add: idx_def)
  have d: "ParamRegistry_get pid ParamRegistry_new = 0"
    using set_get_in_range(4)[OF ParamRegistry_new_wf i] ParamRegistry_new_values[OF k]
    by (simp add: info)
  have e: "(\<forall>w s. ParamRegistry_wf s \<longrightarrow> ParamRegistry_set q w s = s) = (sint q < 0 \<or> kNumParams \<le> sint q)"
  proof
    assume all: "\<forall>w s. ParamRegistry_wf s \<longrightarrow> ParamRegistry_set q w s = s"
    show "sint q < 0 \<or> kNumParams \<le> sint q"
    proof (rule ccontr)
      assume "\<not> (sint q < 0 \<or> kNumParams \<le> sint q)"
      then have qi: "0 \<le> sint q" "sint q < kNumParams" by simp_all
      then have qk: "idx q < 43" by (simp add: idx_def kNumParams_43)
      define s where "s = \<lparr>values_arr = replicate 43 (2000000000::real)\<rparr>"
      have swf: "ParamRegistry_wf s" by (simp add: s_def ParamRegistry_wf_def kNumParams_43)
      have "ParamRegistry_get q (ParamRegistry_set q 0 s) \<le> 1000000000"
        using set_get_in_range(1)[OF swf qi, of 0] kParamInfo_ordered[OF qk] by simp
      moreover have "ParamRegistry_get q s = 2000000000"
        using set_get_in_range(4)[OF swf qi] qk by (simp add: s_def)
      ultimately show False using all swf by simp
    qed
  next
    assume "sint q < 0 \<or> kNumParams \<le> sint q"
    then show "\<forall>w s. ParamRegistry_wf s \<longrightarrow> ParamRegistry_set q w s = s"
      using set_get_invalid(1) by blast
  qed
  have f: "sint q < 0 \<or> kNumParams \<le> sint q \<longrightarrow> ParamRegistry_get q r = 0"
    using set_get_invalid(2) by blast
  from g a b c d e f show ?thesis by (simp add: kNumParams_43)
qed

text \<open>
  The gap id 7 on the freshly constructed registry: it reads 0, and after
  \<open>set(7, 5e9)\<close> it reads \<open>1e9\<close>. The id \<open>0xFFFFFFFF\<close> (integer value -1) reads 0.
\<close>

theorem C10_gap_ids_witness:
  "ParamRegistry_wf ParamRegistry_new \<and> (7 :: ParamId) \<in> set gap_ids
   \<and> ParamRegistry_get 7 (ParamRegistry_set 7 5000000000 ParamRegistry_new) = 1000000000
   \<and> ParamRegistry_get 7 ParamRegistry_new = 0
   \<and> sint (- 1 :: ParamId) < 0 \<and> ParamRegistry_get (- 1) ParamRegistry_new = 0"
proof -
  have a: "(7 :: ParamId) \<in> set gap_ids" by (simp add: gap_ids_def)
  show ?thesis
    using C10_gap_ids [OF ParamRegistry_new_wf a, of 5000000000 "- 1"] a ParamRegistry_new_wf
    by simp
qed

section \<open>Properties of Pipeline\<close>

lemma wf_controller:
  "Pipeline_wf p \<Longrightarrow> 0 \<le> c \<Longrightarrow> c < numControllers p \<Longrightarrow>
     nat c < length (controllers p) \<and> (\<exists>ctl. controllers p ! nat c = Some ctl)"
  by (auto simp add: Pipeline_wf_def list_all_length)

lemma wf_stage:
  "Pipeline_wf p \<Longrightarrow> 0 \<le> s \<Longrightarrow> s < numStages p \<Longrightarrow>
     nat s < length (stages p) \<and> (\<exists>st. stages p ! nat s = Some st)"
  by (auto simp add: Pipeline_wf_def list_all_length)

lemma upt_int_step: "0 \<le> c \<Longrightarrow> c < n \<Longrightarrow> [nat c..<nat n] = nat c # [nat (c + 1)..<nat n]"
  by (simp add: upt_conv_Cons nat_add_distrib)

lemma preProcess_loop_spec:
  "Pipeline_wf p \<Longrightarrow> 0 \<le> c \<Longrightarrow> c \<le> numControllers p \<Longrightarrow>
     preProcess_loop c p buffer n w =
       Some (fold (run_call p buffer n) (map PreProcess [nat c..<nat (numControllers p)]) w)"
proof (induction c p buffer n w rule: preProcess_loop.induct)
  case (1 c p buffer n w)
  show ?case
  proof (cases "c < numControllers p")
    case False
    with 1(4) have "c = numControllers p" by simp
    then show ?thesis by (subst preProcess_loop.simps) simp
  next
    case True
    from wf_controller[OF 1(2,3) True] obtain ctl where
      inb: "0 \<le> c \<and> nat c < length (controllers p)" and ctl: "controllers p ! nat c = Some ctl"
      using 1(3) by auto
    have "preProcess_loop c p buffer n w =
        preProcess_loop (c + 1) p buffer n (preProcess ctl buffer n w)"
      by (subst preProcess_loop.simps) (simp add: True inb ctl)
    also have "\<dots> = Some (fold (run_call p buffer n)
        (map PreProcess [nat (c + 1)..<nat (numControllers p)]) (preProcess ctl buffer n w))"
      using "1.IH"[OF True inb ctl] 1(2,3) True by simp
    finally show ?thesis
      using upt_int_step[OF 1(3) True] ctl by simp
  qed
qed

lemma betweenStages_loop_spec:
  "Pipeline_wf p \<Longrightarrow> 0 \<le> c \<Longrightarrow> c \<le> numControllers p \<Longrightarrow> 0 \<le> s \<Longrightarrow>
     betweenStages_loop c s p buffer n w =
       Some (fold (run_call p buffer n)
               (map (\<lambda>c. BetweenStages c (nat s)) [nat c..<nat (numControllers p)]) w)"
proof (induction c s p buffer n w rule: betweenStages_loop.induct)
  case (1 c s p buffer n w)
  show ?case
  proof (cases "c < numControllers p")
    case False
    with 1(4) have "c = numControllers p" by simp
    then show ?thesis by (subst betweenStages_loop.simps) simp
  next
    case True
    from wf_controller[OF 1(2,3) True] obtain ctl where
      inb: "0 \<le> c \<and> nat c < length (controllers p)" and ctl: "controllers p ! nat c = Some ctl"
      using 1(3) by auto
    have "betweenStages_loop c s p buffer n w =
        betweenStages_loop (c + 1) s p buffer n (betweenStages ctl s buffer n w)"
      by (subst betweenStages_loop.simps) (simp add: True inb ctl)
    also have "\<dots> = Some (fold (run_call p buffer n)
        (map (\<lambda>c. BetweenStages c (nat s)) [nat (c + 1)..<nat (numControllers p)])
        (betweenStages ctl s buffer n w))"
      using "1.IH"[OF True inb ctl] 1(2,3,5) True by simp
    finally show ?thesis
      using upt_int_step[OF 1(3) True] ctl 1(5) by simp
  qed
qed

lemma stages_loop_spec:
  "Pipeline_wf p \<Longrightarrow> 0 \<le> s \<Longrightarrow> s \<le> numStages p \<Longrightarrow>
     stages_loop s p buffer n w =
       Some (fold (run_call p buffer n)
               (concat (map (\<lambda>s. StageProcess s #
                          map (\<lambda>c. BetweenStages c s) [0..<nat (numControllers p)])
                        [nat s..<nat (numStages p)])) w)"
proof (induction s p buffer n w rule: stages_loop.induct)
  case (1 s p buffer n w)
  show ?case
  proof (cases "s < numStages p")
    case False
    with 1(4) have "s = numStages p" by simp
    then show ?thesis by (subst stages_loop.simps) simp
  next
    case True
    from wf_stage[OF 1(2,3) True] obtain st where
      inb: "0 \<le> s \<and> nat s < length (stages p)" and st: "stages p ! nat s = Some st"
      using 1(3) by auto
    define w1 where "w1 = stage_process st buffer n w"
    define w2 where "w2 = fold (run_call p buffer n)
        (map (\<lambda>c. BetweenStages c (nat s)) [0..<nat (numControllers p)]) w1"
    have nc: "0 \<le> numControllers p" using 1(2) by (simp add: Pipeline_wf_def)
    have b: "betweenStages_loop 0 s p buffer n w1 = Some w2"
      using betweenStages_loop_spec[where c=0 and s=s and p=p and buffer=buffer and n=n and w=w1]
        1(2,3) nc by (simp add: w2_def)
    have "stages_loop s p buffer n w = stages_loop (s + 1) p buffer n w2"
      by (subst stages_loop.simps) (simp add: True inb st b w1_def[symmetric])
    also have "\<dots> = Some (fold (run_call p buffer n)
               (concat (map (\<lambda>s. StageProcess s #
                          map (\<lambda>c. BetweenStages c s) [0..<nat (numControllers p)])
                        [nat (s + 1)..<nat (numStages p)])) w2)"
      using "1.IH"[OF True inb st b[unfolded w1_def]] 1(2,3) True by simp
    finally show ?thesis
      using upt_int_step[OF 1(3) True] st by (simp add: w2_def w1_def)
  qed
qed

lemma Pipeline_process_schedule:
  assumes "Pipeline_wf p"
  shows "Pipeline_process p buffer n w =
     Some (fold (run_call p buffer n)
             (call_schedule (nat (numStages p)) (nat (numControllers p))) w)"
proof -
  have nc: "0 \<le> numControllers p" and ns: "0 \<le> numStages p"
    using assms by (simp_all add: Pipeline_wf_def)
  show ?thesis
    using preProcess_loop_spec[where c=0 and p=p and buffer=buffer and n=n and w=w]
      stages_loop_spec[where s=0 and p=p and buffer=buffer and n=n] assms nc ns
    by (simp add: Pipeline_process_def call_schedule_def)
qed

lemma length_call_schedule: "length (call_schedule S C) = S + S * C + C"
  by (simp add: call_schedule_def length_concat comp_def sum_list_triv)

lemma count_PreProcess:
  "count_list (call_schedule S C) (PreProcess c) = (if c < C then 1 else 0)"
proof -
  have a: "count_list (map PreProcess [0..<C]) (PreProcess c) = (if c < C then 1 else 0)"
    by (induction C) auto
  have b: "count_list (concat (map (\<lambda>s. StageProcess s # map (\<lambda>c. BetweenStages c s) [0..<C]) xs)) (PreProcess c) = 0" for xs
    by (induction xs) (auto simp add: count_list_0_iff)
  show ?thesis by (simp add: call_schedule_def a b)
qed

lemma count_StageProcess:
  "count_list (call_schedule S C) (StageProcess s) = (if s < S then 1 else 0)"
proof -
  have a: "count_list (map PreProcess [0..<C]) (StageProcess s) = 0"
    by (auto simp add: count_list_0_iff)
  have b: "count_list (concat (map (\<lambda>s. StageProcess s # map (\<lambda>c. BetweenStages c s) [0..<C]) [0..<S])) (StageProcess s) = (if s < S then 1 else 0)"
    by (induction S) (auto simp add: count_list_0_iff)
  show ?thesis by (simp add: call_schedule_def a b)
qed

lemma count_BetweenStages:
  "count_list (call_schedule S C) (BetweenStages c s) = (if c < C \<and> s < S then 1 else 0)"
proof -
  have a: "count_list (map PreProcess [0..<C]) (BetweenStages c s) = 0"
    by (auto simp add: count_list_0_iff)
  have i: "count_list (map (\<lambda>c. BetweenStages c t) [0..<C]) (BetweenStages c s) = (if c < C \<and> s = t then 1 else 0)" for t
    by (induction C) auto
  have b: "count_list (concat (map (\<lambda>s. StageProcess s # map (\<lambda>c. BetweenStages c s) [0..<C]) [0..<S])) (BetweenStages c s) = (if c < C \<and> s < S then 1 else 0)"
    by (induction S) (auto simp add: i)
  show ?thesis by (simp add: call_schedule_def a b)
qed

lemma betweenStages_per_controller:
  "length (filter (is_betweenStages_of c) (call_schedule S C)) = (if c < C then S else 0)"
proof -
  have a: "filter (is_betweenStages_of c) (map PreProcess [0..<C]) = []"
    by (auto simp add: filter_empty_conv)
  have i: "length (filter (is_betweenStages_of c \<circ> (\<lambda>c. BetweenStages c t)) [0..<C]) = (if c < C then 1 else 0)" for t
    by (induction C) auto
  have b: "length (filter (is_betweenStages_of c) (concat (map (\<lambda>s. StageProcess s # map (\<lambda>c. BetweenStages c s) [0..<C]) [0..<S]))) = (if c < C then S else 0)"
    by (induction S) (auto simp add: i)
  show ?thesis by (simp add: call_schedule_def a b)
qed

lemma nth_concat_uniform:
  "(\<And>s. length (f s) = L) \<Longrightarrow> s < S \<Longrightarrow> j < L \<Longrightarrow>
     length (concat (map f [0..<S])) = S * L \<and> concat (map f [0..<S]) ! (s * L + j) = f s ! j"
proof (induction S)
  case 0
  then show ?case by simp
next
  case (Suc S)
  have len: "length (concat (map f [0..<S])) = S * L"
    using Suc.prems(1) by (induction S) simp_all
  show ?case
  proof (cases "s < S")
    case True
    have "s * L + j < S * L"
    proof -
      have "s * L + j < s * L + L" using Suc.prems(3) by simp
      also have "\<dots> = Suc s * L" by simp
      also have "\<dots> \<le> S * L" using True by (intro mult_le_mono1) simp
      finally show ?thesis .
    qed
    then show ?thesis
      using Suc.IH[OF Suc.prems(1) True Suc.prems(3)] Suc.prems(1) len
      by (simp add: nth_append)
  next
    case False
    with Suc.prems(2) have "s = S" by simp
    then show ?thesis using len Suc.prems(1) by (simp add: nth_append)
  qed
qed

lemma call_schedule_positions:
  "(c < C \<longrightarrow> call_schedule S C ! c = PreProcess c)
   \<and> (s < S \<longrightarrow> call_schedule S C ! (C + s * (C + 1)) = StageProcess s)
   \<and> (s < S \<and> c < C \<longrightarrow> call_schedule S C ! (C + s * (C + 1) + 1 + c) = BetweenStages c s)"
proof -
  let ?f = "\<lambda>s. StageProcess s # map (\<lambda>c. BetweenStages c s) [0..<C]"
  have L: "\<And>s. length (?f s) = C + 1" by simp
  have a: "call_schedule S C ! c = PreProcess c" if "c < C"
    using that by (simp add: call_schedule_def nth_append)
  have b: "call_schedule S C ! (C + s * (C + 1)) = StageProcess s" if "s < S"
    using nth_concat_uniform[of ?f "C + 1" s S 0, OF L that]
    by (simp add: call_schedule_def nth_append)
  have c: "call_schedule S C ! (C + s * (C + 1) + 1 + c) = BetweenStages c s" if "s < S" "c < C"
  proof -
    have "concat (map ?f [0..<S]) ! (s * (C + 1) + (1 + c)) = ?f s ! (1 + c)"
      using nth_concat_uniform[of ?f "C + 1" s S "1 + c", OF L that(1)] that(2) by simp
    then show ?thesis using that(2)
      by (simp add: call_schedule_def nth_append add.assoc)
  qed
  from a b c show ?thesis by blast
qed

lemma logging_pipeline_eq:
  "logging_pipeline = Some
     \<lparr>stages = [Some (logging_stage 0), Some (logging_stage 1)] @ replicate 14 None,
      controllers = [Some (logging_controller 0)] @ replicate 3 None,
      numStages = 2, numControllers = 1,
      pipeline_sampleRate = 0, pipeline_maxBlockSize = 0\<rparr>"
  by (simp add: logging_pipeline_def Pipeline_addStage_def Pipeline_addController_def
      Pipeline_new_def kMaxStages_def kMaxControllers_def eval_nat_numeral)

text \<open>
  C1. For every well-formed pipeline with \<open>S\<close> registered stages and \<open>C\<close> registered
  controllers, \<open>process(buffer, n)\<close> returns, and its effect on the world is that of the
  calls of \<open>call_schedule S C\<close> made one after the other: first the \<open>preProcess\<close> of
  every controller in registration order (positions \<open>0..C-1\<close>), then for each stage
  \<open>s = 0..S-1\<close> its \<open>process\<close> (position \<open>C + s*(C+1)\<close>) followed by the \<open>betweenStages\<close>
  with index \<open>s\<close> of every controller in registration order (the next \<open>C\<close> positions).
  The schedule has \<open>S + S*C + C\<close> calls; every stage's \<open>process\<close> and every controller's
  \<open>preProcess\<close> occurs exactly once, and every controller's \<open>betweenStages\<close> exactly \<open>S\<close>
  times.
\<close>

theorem C1_process_call_order:
  assumes wf: "Pipeline_wf p"
    and S: "S = nat (numStages p)" and C: "C = nat (numControllers p)"
  shows "Pipeline_process p buffer n w =
           Some (fold (run_call p buffer n) (call_schedule S C) w)
       \<and> length (call_schedule S C) = S + S * C + C
       \<and> (\<forall>c<C. call_schedule S C ! c = PreProcess c)
       \<and> (\<forall>s<S. call_schedule S C ! (C + s * (C + 1)) = StageProcess s
              \<and> (\<forall>c<C. call_schedule S C ! (C + s * (C + 1) + 1 + c) = BetweenStages c s))
       \<and> (\<forall>s<S. count_list (call_schedule S C) (StageProcess s) = 1)
       \<and> (\<forall>c<C. count_list (call_schedule S C) (PreProcess c) = 1)
       \<and> (\<forall>c<C. length (filter (is_betweenStages_of c) (call_schedule S C)) = S)"
  using Pipeline_process_schedule[OF wf, of buffer n w] length_call_schedule[of S C]
    call_schedule_positions[of _ C S] count_StageProcess[of S C] count_PreProcess[of S C]
    betweenStages_per_controller[of _ S C]
  unfolding S C by simp

text \<open>
  The pipeline of two logging stages and one logging controller, built with \<open>addStage\<close>
  and \<open>addController\<close>: one block leaves the trace of its five calls in order.
\<close>

theorem C1_process_call_order_witness:
  "Pipeline_wf (the logging_pipeline)
   \<and> nat (numStages (the logging_pipeline)) = 2 \<and> nat (numControllers (the logging_pipeline)) = 1
   \<and> Pipeline_process (the logging_pipeline) () 128 [] =
       Some [PreProcess 0, StageProcess 0, BetweenStages 0 0, StageProcess 1, BetweenStages 0 1]
   \<and> length (call_schedule 2 1) = 2 + 2 * 1 + 1"
proof -
  have wf: "Pipeline_wf (the logging_pipeline)"
    unfolding logging_pipeline_eq
    by (simp add: Pipeline_wf_def kMaxStages_def kMaxControllers_def numeral_2_eq_2)
  have S: "2 = nat (numStages (the logging_pipeline))"
    and C: "1 = nat (numControllers (the logging_pipeline))"
    by (simp_all add: logging_pipeline_eq)
  have sch: "call_schedule 2 1 =
      [PreProcess 0, StageProcess 0, BetweenStages 0 0, StageProcess 1, BetweenStages 0 1]"
    by (simp add: call_schedule_def eval_nat_numeral)
  note th = C1_process_call_order [OF wf S C, of "()" 128 "[]"]
  have run: "fold (run_call (the logging_pipeline) () 128)
      [PreProcess 0, StageProcess 0, BetweenStages 0 0, StageProcess 1, BetweenStages 0 1] [] =
      [PreProcess 0, StageProcess 0, BetweenStages 0 0, StageProcess 1, BetweenStages 0 1]"
    by (simp add: logging_pipeline_eq logging_stage_def logging_controller_def)
  from th have "Pipeline_process (the logging_pipeline) () 128 [] =
      Some (fold (run_call (the logging_pipeline) () 128) (call_schedule 2 1) [])"
    by (rule conjunct1)
  then have p: "Pipeline_process (the logging_pipeline) () 128 [] =
       Some [PreProcess 0, StageProcess 0, BetweenStages 0 0, StageProcess 1, BetweenStages 0 1]"
    unfolding sch run .
  from th have l: "length (call_schedule 2 1) = 2 + 2 * 1 + 1"
    by blast
  from wf S[symmetric] C[symmetric] p l show ?thesis by blast
qed

section \<open>Properties of NamStage\<close>

lemma input_gain_loop_spec:
  "0 \<le> i \<Longrightarrow> i \<le> n \<Longrightarrow> n \<le> int (length buf) \<Longrightarrow>
   \<exists>buf'. input_gain_loop i n buf g = Some buf'
     \<and> length buf' = length buf
     \<and> (\<forall>k<length buf. buf' ! k = (if nat i \<le> k \<and> k < nat n then buf ! k * g else buf ! k))"
proof (induction i n buf g rule: input_gain_loop.induct)
  case (1 i n buf g)
  show ?case
  proof (cases "i < n")
    case False
    with 1 have "i = n" by simp
    then show ?thesis by (subst input_gain_loop.simps) simp
  next
    case True
    define b1 where "b1 = buf[nat i := buf ! nat i * g]"
    have inb: "0 \<le> i \<and> nat i < length buf" using 1(2-4) True by linarith
    have step: "input_gain_loop i n buf g = input_gain_loop (i + 1) n b1 g"
      by (subst input_gain_loop.simps) (simp add: True inb b1_def)
    have lb1: "length b1 = length buf" by (simp add: b1_def)
    from "1.IH"[OF True inb]
    obtain buf' where ih: "input_gain_loop (i + 1) n b1 g = Some buf'"
       "length buf' = length b1"
       "\<forall>k<length b1. buf' ! k = (if nat (i + 1) \<le> k \<and> k < nat n then b1 ! k * g else b1 ! k)"
      using True inb 1(4) lb1 unfolding b1_def by auto
    have "\<forall>k<length buf. buf' ! k = (if nat i \<le> k \<and> k < nat n then buf ! k * g else buf ! k)"
    proof (intro allI impI)
      fix k assume k: "k < length buf"
      consider "k < nat i" | "k = nat i" | "nat i < k" by linarith
      then show "buf' ! k = (if nat i \<le> k \<and> k < nat n then buf ! k * g else buf ! k)"
      proof cases
        case 1
        then show ?thesis using ih(3) k lb1 inb by (simp add: b1_def nat_add_distrib)
      next
        case 2
        then show ?thesis using ih(3) k lb1 inb True by (simp add: b1_def nat_add_distrib)
      next
        case 3
        then show ?thesis using ih(3) k lb1 inb True by (simp add: b1_def nat_add_distrib)
      qed
    qed
    then show ?thesis using step ih(1,2) lb1 by simp
  qed
qed

lemma output_gain_loop_spec:
  "0 \<le> i \<Longrightarrow> i \<le> n \<Longrightarrow> n \<le> int (length buf) \<Longrightarrow> n \<le> int (length ob) \<Longrightarrow>
   \<exists>buf'. output_gain_loop i n buf ob g = Some buf'
     \<and> length buf' = length buf
     \<and> (\<forall>k<length buf. buf' ! k = (if nat i \<le> k \<and> k < nat n then ob ! k * g else buf ! k))"
proof (induction i n buf ob g rule: output_gain_loop.induct)
  case (1 i n buf ob g)
  show ?case
  proof (cases "i < n")
    case False
    with 1 have "i = n" by simp
    then show ?thesis by (subst output_gain_loop.simps) simp
  next
    case True
    define b1 where "b1 = buf[nat i := ob ! nat i * g]"
    have inb: "0 \<le> i \<and> nat i < length buf \<and> nat i < length ob" using 1(2-5) True by linarith
    have step: "output_gain_loop i n buf ob g = output_gain_loop (i + 1) n b1 ob g"
      by (subst output_gain_loop.simps) (simp add: True inb b1_def)
    have lb1: "length b1 = length buf" by (simp add: b1_def)
    from "1.IH"[OF True inb]
    obtain buf' where ih: "output_gain_loop (i + 1) n b1 ob g = Some buf'"
       "length buf' = length b1"
       "\<forall>k<length b1. buf' ! k = (if nat (i + 1) \<le> k \<and> k < nat n then ob ! k * g else b1 ! k)"
      using True inb 1(4,5) lb1 unfolding b1_def by auto
    have "\<forall>k<length buf. buf' ! k = (if nat i \<le> k \<and> k < nat n then ob ! k * g else buf ! k)"
    proof (intro allI impI)
      fix k assume k: "k < length buf"
      consider "k < nat i" | "k = nat i" | "nat i < k" by linarith
      then show "buf' ! k = (if nat i \<le> k \<and> k < nat n then ob ! k * g else buf ! k)"
      proof cases
        case 1
        then show ?thesis using ih(3) k lb1 inb by (simp add: b1_def nat_add_distrib)
      next
        case 2
        then show ?thesis using ih(3) k lb1 inb True by (simp add: b1_def nat_add_distrib)
      next
        case 3
        then show ?thesis using ih(3) k lb1 inb True by (simp add: b1_def nat_add_distrib)
      qed
    qed
    then show ?thesis using step ih(1,2) lb1 by simp
  qed
qed

lemma input_gain_loop_map:
  assumes "0 \<le> n" "n \<le> int (length buf)"
  shows "input_gain_loop 0 n buf g = Some (map (\<lambda>x. x * g) (take (nat n) buf) @ drop (nat n) buf)"
proof -
  from input_gain_loop_spec[of 0 n buf g] assms
  obtain buf' where r: "input_gain_loop 0 n buf g = Some buf'" "length buf' = length buf"
    "\<forall>k<length buf. buf' ! k = (if k < nat n then buf ! k * g else buf ! k)"
    by auto
  have "buf' = map (\<lambda>x. x * g) (take (nat n) buf) @ drop (nat n) buf"
  proof (rule nth_equalityI)
    show "length buf' = length (map (\<lambda>x. x * g) (take (nat n) buf) @ drop (nat n) buf)"
      using r(2) assms by simp
  next
    fix k assume "k < length buf'"
    then have k: "k < length buf" using r(2) by simp
    have m: "min (length buf) (nat n) = nat n" using assms by simp
    show "buf' ! k = (map (\<lambda>x. x * g) (take (nat n) buf) @ drop (nat n) buf) ! k"
      using r(3) k assms by (simp add: nth_append m)
  qed
  with r(1) show ?thesis by simp
qed

lemma output_gain_loop_map:
  assumes "0 \<le> n" "n \<le> int (length buf)" "n \<le> int (length ob)"
  shows "output_gain_loop 0 n buf ob g = Some (map (\<lambda>y. y * g) (take (nat n) ob) @ drop (nat n) buf)"
proof -
  from output_gain_loop_spec[of 0 n buf ob g] assms
  obtain buf' where r: "output_gain_loop 0 n buf ob g = Some buf'" "length buf' = length buf"
    "\<forall>k<length buf. buf' ! k = (if k < nat n then ob ! k * g else buf ! k)"
    by auto
  have "buf' = map (\<lambda>y. y * g) (take (nat n) ob) @ drop (nat n) buf"
  proof (rule nth_equalityI)
    show "length buf' = length (map (\<lambda>y. y * g) (take (nat n) ob) @ drop (nat n) buf)"
      using r(2) assms by simp
  next
    fix k assume "k < length buf'"
    then have k: "k < length buf" using r(2) by simp
    have m: "min (length ob) (nat n) = nat n" using assms by simp
    show "buf' ! k = (map (\<lambda>y. y * g) (take (nat n) ob) @ drop (nat n) buf) ! k"
      using r(3) k assms by (simp add: nth_append m)
  qed
  with r(1) show ?thesis by simp
qed

lemma applyPendingModel_fields:
  "model (NamStage_applyPendingModel api st0) = pendingModel st0"
  "pendingModel (NamStage_applyPendingModel api st0) = None"
  "currentModelPath (NamStage_applyPendingModel api st0) = pendingModelPath st0"
  "modelPending (NamStage_applyPendingModel api st0) = False"
  "outputBuffer (NamStage_applyPendingModel api st0) = outputBuffer st0"
  "inputGainLinear (NamStage_applyPendingModel api st0) =
     (case pendingModel st0 of None \<Rightarrow> 1
      | Some m \<Rightarrow> 10 powr (GetRecommendedInputDBAdjustment api m / 20))"
  "outputGainLinear (NamStage_applyPendingModel api st0) =
     (case pendingModel st0 of None \<Rightarrow> 1
      | Some m \<Rightarrow> 10 powr (GetRecommendedOutputDBAdjustment api m / 20))"
  by (simp_all add: NamStage_applyPendingModel_def NamStage_updateCalibration_def Let_def
      split: option.split)

lemma process_with_model:
  assumes ok: "Process_ok api" and n0: "0 \<le> n" and nb: "n \<le> int (length buffer)"
    and no: "n \<le> int (length (outputBuffer st))"
    and m: "model st = Some m"
  shows "(case (if inputGainLinear st \<noteq> 1
                then input_gain_loop 0 n buffer (inputGainLinear st)
                else Some buffer) of
            None \<Rightarrow> None
          | Some buffer1 \<Rightarrow>
              (case run_model api m buffer1 (outputBuffer st) n of
                 None \<Rightarrow> None
               | Some (outBuf, m') \<Rightarrow>
                   (case (if outputGainLinear st \<noteq> 1
                          then output_gain_loop 0 n buffer1 outBuf (outputGainLinear st)
                          else memcpy_samples buffer1 outBuf n) of
                      None \<Rightarrow> None
                    | Some buffer2 \<Rightarrow>
                        Some (buffer2, st\<lparr>model := Some m', outputBuffer := outBuf\<rparr>)))) =
         Some (map (\<lambda>y. y * outputGainLinear st)
                 (fst (Process api (map (\<lambda>x. x * inputGainLinear st) (take (nat n) buffer)) m))
               @ drop (nat n) buffer,
               st\<lparr>model := Some (snd (Process api
                                (map (\<lambda>x. x * inputGainLinear st) (take (nat n) buffer)) m)),
                  outputBuffer :=
                    fst (Process api (map (\<lambda>x. x * inputGainLinear st) (take (nat n) buffer)) m)
                    @ drop (nat n) (outputBuffer st)\<rparr>)"
proof -
  define gi where "gi = inputGainLinear st"
  define go where "go = outputGainLinear st"
  define xs where "xs = map (\<lambda>x. x * gi) (take (nat n) buffer)"
  define buffer1 where "buffer1 = xs @ drop (nat n) buffer"
  define out where "out = fst (Process api xs m)"
  define m' where "m' = snd (Process api xs m)"
  define outBuf where "outBuf = out @ drop (nat n) (outputBuffer st)"
  have lxs: "length xs = nat n" using n0 nb by (simp add: xs_def)
  have lout: "length out = nat n" using ok lxs by (simp add: out_def Process_ok_def)
  have lb1: "length buffer1 = length buffer" using lxs n0 nb by (simp add: buffer1_def)
  have lob: "nat n \<le> length outBuf" using lout by (simp add: outBuf_def)
  have s1: "(if gi \<noteq> 1 then input_gain_loop 0 n buffer gi else Some buffer) = Some buffer1"
  proof (cases "gi = 1")
    case True
    then show ?thesis by (simp add: buffer1_def xs_def)
  next
    case False
    then show ?thesis using input_gain_loop_map[OF n0 nb, of gi] by (simp add: buffer1_def xs_def)
  qed
  have tb1: "take (nat n) buffer1 = xs" using lxs by (simp add: buffer1_def)
  have db1: "drop (nat n) buffer1 = drop (nat n) buffer" using lxs by (simp add: buffer1_def)
  have pr: "Process api xs m = (out, m')" by (simp add: out_def m'_def)
  have nb': "nat n \<le> length buffer" using n0 nb by linarith
  have no': "nat n \<le> length (outputBuffer st)" using n0 no by linarith
  have s2: "run_model api m buffer1 (outputBuffer st) n = Some (outBuf, m')"
    using n0 nb' no' lb1 by (simp add: run_model_def tb1 pr outBuf_def lout)
  have tob: "take (nat n) outBuf = out" using lout by (simp add: outBuf_def)
  have s3: "(if go \<noteq> 1 then output_gain_loop 0 n buffer1 outBuf go
             else memcpy_samples buffer1 outBuf n) = Some (map (\<lambda>y. y * go) out @ drop (nat n) buffer)"
  proof (cases "go = 1")
    case True
    then show ?thesis using n0 nb' lb1 lob by (simp add: memcpy_samples_def tob db1)
  next
    case False
    have "n \<le> int (length buffer1)" using nb lb1 by simp
    moreover have "n \<le> int (length outBuf)" using lob n0 by linarith
    ultimately show ?thesis
      using output_gain_loop_map[OF n0, of buffer1 outBuf go] False by (simp add: tob db1)
  qed
  show ?thesis
    unfolding gi_def[symmetric] go_def[symmetric] xs_def[symmetric] out_def[symmetric]
      m'_def[symmetric] outBuf_def[symmetric]
    by (simp add: s1 s2 s3)
qed

lemma example_api_ok: "Process_ok example_api"
  by (simp add: Process_ok_def example_api_def)

lemma example_stage_eq:
  "example_stage =
     \<lparr>model = None, currentModelPath = [], pendingModel = Some 2, pendingModelPath = ''amp.nam'',
      modelPending = True, outputBuffer = [0, 0, 0, 0], nam_maxBlockSize = 4, nam_sampleRate = 48000,
      inputGainLinear = 1, outputGainLinear = 1\<rparr>"
  by (simp add: example_stage_def NamStage_loadModel_def NamStage_prepare_def NamStage_new_def
      example_api_def Let_def eval_nat_numeral)

text \<open>
  C2. Let \<open>st\<close> be the stage after the check at the top of \<open>process\<close>: \<open>applyPendingModel\<close>
  applied when the pending flag is set, the stage as it was otherwise. When the flag was
  set, the active model of \<open>st\<close> is the pending model, the pending slot is empty, the flag
  is cleared and the calibration gains are those of the newly active model (both 1 when
  it is null); \<open>st\<close> does not depend on the buffer. For a contract-abiding library and
  \<open>0 \<le> n\<close> within the buffer and the scratch buffer, \<open>process(buffer, n)\<close> returns: with no
  active model in \<open>st\<close> the buffer is returned unchanged, and otherwise its first \<open>n\<close>
  samples are replaced by the output gain times the block the model returns for the first
  \<open>n\<close> input samples scaled by the input gain, the samples from \<open>n\<close> on being unchanged.
\<close>

theorem C2_process_swap_then_block:
  assumes ok: "Process_ok api" and n0: "0 \<le> n" and nb: "n \<le> int (length buffer)"
    and no: "n \<le> int (length (outputBuffer st0))"
    and st: "st = (if modelPending st0 then NamStage_applyPendingModel api st0 else st0)"
  shows "(modelPending st0 \<longrightarrow>
            model st = pendingModel st0 \<and> pendingModel st = None \<and> \<not> modelPending st
          \<and> inputGainLinear st =
              (case pendingModel st0 of None \<Rightarrow> 1
               | Some m \<Rightarrow> 10 powr (GetRecommendedInputDBAdjustment api m / 20))
          \<and> outputGainLinear st =
              (case pendingModel st0 of None \<Rightarrow> 1
               | Some m \<Rightarrow> 10 powr (GetRecommendedOutputDBAdjustment api m / 20)))
       \<and> (model st = None \<longrightarrow> NamStage_process api buffer n st0 = Some (buffer, st))
       \<and> (\<forall>m. model st = Some m \<longrightarrow>
            NamStage_process api buffer n st0 =
              Some (map (\<lambda>y. y * outputGainLinear st)
                      (fst (Process api (map (\<lambda>x. x * inputGainLinear st) (take (nat n) buffer)) m))
                    @ drop (nat n) buffer,
                    st\<lparr>model := Some (snd (Process api
                                     (map (\<lambda>x. x * inputGainLinear st) (take (nat n) buffer)) m)),
                       outputBuffer :=
                         fst (Process api (map (\<lambda>x. x * inputGainLinear st) (take (nat n) buffer)) m)
                         @ drop (nat n) (outputBuffer st)\<rparr>))"
proof -
  have ob: "outputBuffer st = outputBuffer st0"
    by (simp add: st applyPendingModel_fields)
  have a: "modelPending st0 \<longrightarrow>
            model st = pendingModel st0 \<and> pendingModel st = None \<and> \<not> modelPending st
          \<and> inputGainLinear st =
              (case pendingModel st0 of None \<Rightarrow> 1
               | Some m \<Rightarrow> 10 powr (GetRecommendedInputDBAdjustment api m / 20))
          \<and> outputGainLinear st =
              (case pendingModel st0 of None \<Rightarrow> 1
               | Some m \<Rightarrow> 10 powr (GetRecommendedOutputDBAdjustment api m / 20))"
    by (simp add: st applyPendingModel_fields)
  have b: "NamStage_process api buffer n st0 = Some (buffer, st)" if "model st = None"
    using that by (simp add: NamStage_process_def Let_def st[symmetric])
  have c: "NamStage_process api buffer n st0 =
              Some (map (\<lambda>y. y * outputGainLinear st)
                      (fst (Process api (map (\<lambda>x. x * inputGainLinear st) (take (nat n) buffer)) m))
                    @ drop (nat n) buffer,
                    st\<lparr>model := Some (snd (Process api
                                     (map (\<lambda>x. x * inputGainLinear st) (take (nat n) buffer)) m)),
                       outputBuffer :=
                         fst (Process api (map (\<lambda>x. x * inputGainLinear st) (take (nat n) buffer)) m)
                         @ drop (nat n) (outputBuffer st)\<rparr>)" if m: "model st = Some m" for m
  proof -
    have no': "n \<le> int (length (outputBuffer st))" using no ob by simp
    show ?thesis
      using process_with_model[OF ok n0 nb no' m]
      by (simp add: NamStage_process_def Let_def st[symmetric] m)
  qed
  from a b c show ?thesis by blast
qed

text \<open>
  The example stage with its pending model 2 (0 dB input, 20 dB output adjustment) on the
  block 1, 2, 3 with \<open>n = 2\<close>: the model is swapped in and the block becomes 20, 40, 3.
\<close>

theorem C2_process_swap_then_block_witness:
  "Process_ok example_api \<and> (0::int) \<le> 2 \<and> (2::int) \<le> int (length [1, 2, 3::real])
   \<and> (2::int) \<le> int (length (outputBuffer example_stage))
   \<and> modelPending example_stage \<and> model (NamStage_applyPendingModel example_api example_stage) = Some 2
   \<and> NamStage_process example_api [1, 2, 3] 2 example_stage =
       Some ([20, 40, 3],
             \<lparr>model = Some 2, currentModelPath = ''amp.nam'', pendingModel = None,
              pendingModelPath = [], modelPending = False, outputBuffer = [2, 4, 0, 0],
              nam_maxBlockSize = 4, nam_sampleRate = 48000,
              inputGainLinear = 1, outputGainLinear = 10\<rparr>)"
proof -
  have n0: "(0::int) \<le> 2" and nb: "(2::int) \<le> int (length [1, 2, 3::real])"
    and no: "(2::int) \<le> int (length (outputBuffer example_stage))"
    by (simp_all add: example_stage_eq)
  have p: "modelPending example_stage" by (simp add: example_stage_eq)
  define st where "st = NamStage_applyPendingModel example_api example_stage"
  have st': "st = (if modelPending example_stage
                   then NamStage_applyPendingModel example_api example_stage else example_stage)"
    using p by (simp add: st_def)
  have st_eq: "st = \<lparr>model = Some 2, currentModelPath = ''amp.nam'', pendingModel = None,
              pendingModelPath = [], modelPending = False, outputBuffer = [0, 0, 0, 0],
              nam_maxBlockSize = 4, nam_sampleRate = 48000,
              inputGainLinear = 1, outputGainLinear = 10\<rparr>"
    by (simp add: st_def example_stage_eq NamStage_applyPendingModel_def
        NamStage_updateCalibration_def example_api_def Let_def)
  have m: "model st = Some 2" by (simp add: st_eq)
  have n2: "nat 2 = Suc (Suc 0)" by simp
  from C2_process_swap_then_block [OF example_api_ok n0 nb no st'] m
  have "NamStage_process example_api [1, 2, 3] 2 example_stage =
              Some (map (\<lambda>y. y * outputGainLinear st)
                      (fst (Process example_api (map (\<lambda>x. x * inputGainLinear st) (take (nat 2) [1, 2, 3])) 2))
                    @ drop (nat 2) [1, 2, 3],
                    st\<lparr>model := Some (snd (Process example_api
                                     (map (\<lambda>x. x * inputGainLinear st) (take (nat 2) [1, 2, 3])) 2)),
                       outputBuffer :=
                         fst (Process example_api (map (\<lambda>x. x * inputGainLinear st) (take (nat 2) [1, 2, 3])) 2)
                         @ drop (nat 2) (outputBuffer st)\<rparr>)"
    by blast
  then have r: "NamStage_process example_api [1, 2, 3] 2 example_stage =
       Some ([20, 40, 3],
             \<lparr>model = Some 2, currentModelPath = ''amp.nam'', pendingModel = None,
              pendingModelPath = [], modelPending = False, outputBuffer = [2, 4, 0, 0],
              nam_maxBlockSize = 4, nam_sampleRate = 48000,
              inputGainLinear = 1, outputGainLinear = 10\<rparr>)"
    unfolding n2 by (simp add: st_eq example_api_def)
  from example_api_ok n0 nb no p m[unfolded st_def] r show ?thesis by blast
qed

text \<open>
  C3. When the construction of the model fails (\<open>CreateFromFile\<close> throws or returns a null
  pointer), \<open>loadModel(path)\<close> returns \<open>false\<close> and the stage it leaves is the stage it
  was given: active model, pending slot, pending flag, paths and calibration gains are
  all unchanged, so \<open>hasModel()\<close>, \<open>modelPath()\<close> and the result of any following
  \<open>process\<close> call are what they were before the call.
\<close>

theorem C3_loadModel_failure:
  assumes "CreateFromFile api path = Throws \<or> CreateFromFile api path = Null"
  shows "NamStage_loadModel api path st = (False, st)
       \<and> NamStage_hasModel (snd (NamStage_loadModel api path st)) = NamStage_hasModel st
       \<and> NamStage_modelPath (snd (NamStage_loadModel api path st)) = NamStage_modelPath st
       \<and> NamStage_process api buffer n (snd (NamStage_loadModel api path st)) =
           NamStage_process api buffer n st"
proof -
  have "NamStage_loadModel api path st = (False, st)"
    using assms by (auto simp add: NamStage_loadModel_def)
  then show ?thesis by simp
qed

text \<open>
  The example stage: loading the file \<open>bad\<close> (the library throws) and loading the empty
  name (the library returns null) both return \<open>false\<close> and the same stage.
\<close>

theorem C3_loadModel_failure_witness:
  "CreateFromFile example_api ''bad'' = Throws
   \<and> NamStage_loadModel example_api ''bad'' example_stage = (False, example_stage)
   \<and> CreateFromFile example_api [] = Null
   \<and> NamStage_loadModel example_api [] example_stage = (False, example_stage)"
proof -
  have a: "CreateFromFile example_api ''bad'' = Throws" by (simp add: example_api_def)
  have b: "CreateFromFile example_api [] = Null" by (simp add: example_api_def)
  from C3_loadModel_failure [OF disjI1 [OF a], of example_stage]
    C3_loadModel_failure [OF disjI2 [OF b], of example_stage] a b
  show ?thesis by blast
qed

end
